theory Spec2Isabelle
  imports Main "HOL-Library.Word"
begin

section \<open>Result sets: columns, rows and elements\<close>

text \<open>
  Go's \<open>int\<close> and \<open>int64\<close> are modelled as 64-bit words (the arithmetic wraps around and
  comparisons read the word as two's complement); \<open>uint16\<close> as a 16-bit word. A pointer
  that may be \<open>nil\<close> is an \<open>option\<close>, with \<open>None\<close> for \<open>nil\<close>; the same holds for a nil
  slice, a nil map and a nil \<open>error\<close>.
\<close>

type_synonym int64 = "64 word"
type_synonym duration = "64 word"

text \<open>What the code reads from a \<open>sql.ColumnType\<close>: \<open>Name()\<close> and \<open>ScanType().String()\<close>.\<close>

record ColumnType =
  Name :: string
  ScanType :: string

text \<open>
  \<open>Element\<close> (multiresults.go). The \<open>sql.Null*\<close> structs are pairs of a value and the
  \<open>Valid\<close> flag; a float is kept as its 64 bits and a time as its Unix nanoseconds.
\<close>

record Element =
  Type :: int
  NullString :: "(string \<times> bool) option"
  NullInt64 :: "(int64 \<times> bool) option"
  NullFloat64 :: "(64 word \<times> bool) option"
  NullTime :: "(int64 \<times> bool) option"

definition elementInt :: int where "elementInt = 0"
definition elementString :: int where "elementString = 1"
definition elementFloat :: int where "elementFloat = 2"
definition elementTime :: int where "elementTime = 3"

text \<open>\<open>&Element{}\<close>: the zero value.\<close>

definition zeroElement :: Element where
  "zeroElement = \<lparr>Type = 0, NullString = None, NullInt64 = None, NullFloat64 = None, NullTime = None\<rparr>"

text \<open>
  \<open>Columns\<close> (columns.go): the column types and two caches that are filled on first use,
  \<open>names\<close> (a slice, nil until \<open>ColumnNames\<close> runs) and \<open>indexes\<close> (a map, nil until
  \<open>ColumnIndex\<close> runs).
\<close>

record Columns =
  columnTypes :: "ColumnType list"
  names :: "string list option"
  indexes :: "(string \<rightharpoonup> nat) option"

definition newColumns :: "ColumnType list \<Rightarrow> Columns" where
  "newColumns cts = \<lparr>columnTypes = cts, names = None, indexes = None\<rparr>"

text \<open>
  The loop of \<open>ColumnNames\<close>: \<open>for i, column := range c.columnTypes { c.names[i] = column.Name() }\<close>
  over a slice made with \<open>len(c.columnTypes)\<close> empty strings.
\<close>

definition fillNames :: "ColumnType list \<Rightarrow> string list" where
  "fillNames cts =
     fold (\<lambda>(i, column) ns. ns[i := Name column]) (enumerate 0 cts) (replicate (length cts) [])"

definition ColumnNames :: "Columns \<Rightarrow> Columns \<times> string list" where
  "ColumnNames c =
     (case names c of
        Some ns \<Rightarrow> (c, ns)
      | None \<Rightarrow> (let ns = fillNames (columnTypes c) in (c\<lparr>names := Some ns\<rparr>, ns)))"

text \<open>
  The loop of \<open>ColumnIndex\<close>: \<open>for name, index := range c.ColumnNames() { c.indexes[index] = name }\<close>.
  The source calls the position \<open>name\<close> and the string \<open>index\<close>; the map goes from the
  string to the position, and a later position overwrites an earlier one.
\<close>

definition fillIndexes :: "string list \<Rightarrow> (string \<rightharpoonup> nat)" where
  "fillIndexes ns = fold (\<lambda>(name, index) m. m(index \<mapsto> name)) (enumerate 0 ns) Map.empty"

datatype error =
    MySQLError (Number: "16 word")
  | ErrQueueOverloaded
  | ErrWrongReference
  | ErrRollback
  | ErrorString string

definition ColumnIndex :: "Columns \<Rightarrow> string \<Rightarrow> Columns \<times> (error + nat)" where
  "ColumnIndex c name =
     (let (c1, m) =
        (case indexes c of
           Some m \<Rightarrow> (c, m)
         | None \<Rightarrow>
             (let (c', ns) = ColumnNames c; m = fillIndexes ns
              in (c'\<lparr>indexes := Some m\<rparr>, m)))
      in case m name of
           Some index \<Rightarrow> (c1, Inr index)
         | None \<Rightarrow> (c1, Inl (ErrorString ''column name not found'')))"

text \<open>
  A call either returns, or panics (a run-time error such as an index out of range or a
  nil dereference), or blocks for ever on a channel.
\<close>

datatype 'a outcome = Returned 'a | Panicked string | Blocked

text \<open>
  \<open>Row\<close>: the elements are pointers (\<open>None\<close> is nil). \<open>Columns\<close> is a pointer shared by
  the rows of one result; a method that fills its caches returns the row with the
  updated object.
\<close>

record Row =
  Elements :: "Element option list"
  Columns :: Columns

definition GetElementByName :: "Row \<Rightarrow> string \<Rightarrow> Row \<times> Element option outcome" where
  "GetElementByName r name =
     (let (c, res) = ColumnIndex (Columns r) name; r1 = r\<lparr>Columns := c\<rparr>
      in case res of
           Inl err \<Rightarrow> (r1, Returned None)
         | Inr index \<Rightarrow>
             if index < length (Elements r1) then (r1, Returned (Elements r1 ! index))
             else (r1, Panicked ''index out of range''))"

text \<open>\<open>newRow\<close>: one fresh element per column, typed by the column's scan type.\<close>

definition newElement :: "string \<Rightarrow> error + Element" where
  "newElement colType =
     (if colType \<in> set [''uint'', ''uint8'', ''uint16'', ''uint32'', ''uint64'',
                         ''int'', ''int8'', ''int16'', ''int32'', ''int64'', ''sql.NullInt64'']
      then Inr (zeroElement\<lparr>Type := elementInt, NullInt64 := Some (0, False)\<rparr>)
      else if colType \<in> set [''string'', ''sql.RawBytes'']
      then Inr (zeroElement\<lparr>Type := elementString, NullString := Some ([], False)\<rparr>)
      else if colType = ''mysql.NullTime''
      then Inr (zeroElement\<lparr>Type := elementTime, NullTime := Some (0, False)\<rparr>)
      else if colType \<in> set [''float32'', ''float64'']
      then Inr (zeroElement\<lparr>Type := elementFloat, NullFloat64 := Some (0, False)\<rparr>)
      else Inl (ErrorString (''unhandled type'' @ colType)))"

fun newRowElements :: "ColumnType list \<Rightarrow> error + Element option list" where
  "newRowElements [] = Inr []"
| "newRowElements (column # cts) =
     (case newElement (ScanType column) of
        Inl err \<Rightarrow> Inl err
      | Inr e \<Rightarrow> (case newRowElements cts of Inl err \<Rightarrow> Inl err | Inr es \<Rightarrow> Inr (Some e # es)))"

definition newRow :: "Columns \<Rightarrow> error + Row" where
  "newRow c =
     (case newRowElements (columnTypes c) of
        Inl err \<Rightarrow> Inl err
      | Inr es \<Rightarrow> Inr \<lparr>Elements = es, Columns = c\<rparr>)"


section \<open>Errors (the package's error values and the driver's)\<close>

text \<open>
  \<open>error\<close> above lists the dynamic types of a non-nil Go \<open>error\<close> that the code tells
  apart: a \<open>*mysql.MySQLError\<close> with its number, the three package-level values made by
  \<open>errors.New\<close>, and any other error (identified by its text).
\<close>

definition ErrMySQLDeadlock :: "16 word" where "ErrMySQLDeadlock = 1213"
definition ErrMySQLDupEntry :: "16 word" where "ErrMySQLDupEntry = 1062"
definition ErrMySQLCoinstaint :: "16 word" where "ErrMySQLCoinstaint = 1452"

definition IsErrorCode :: "error option \<Rightarrow> 16 word \<Rightarrow> bool" where
  "IsErrorCode err no =
     (case err of Some (MySQLError n) \<Rightarrow> n = no | _ \<Rightarrow> False)"

section \<open>Channels\<close>

text \<open>
  A buffered channel \<open>make(chan T, n)\<close>: its capacity and the values queued in it. A send
  blocks while the buffer is full; \<open>send\<close> is \<open>None\<close> when it would block. Readers of
  these channels are outside the code modelled here.
\<close>

record 'a chan =
  capacity :: nat
  buffer :: "'a list"

definition make_chan :: "nat \<Rightarrow> 'a chan" where
  "make_chan n = \<lparr>capacity = n, buffer = []\<rparr>"

definition send :: "'a chan \<Rightarrow> 'a \<Rightarrow> 'a chan option" where
  "send ch v =
     (if length (buffer ch) < capacity ch then Some (ch\<lparr>buffer := buffer ch @ [v]\<rparr>) else None)"

definition receive :: "'a chan \<Rightarrow> ('a \<times> 'a chan) option" where
  "receive ch = (case buffer ch of [] \<Rightarrow> None | v # vs \<Rightarrow> Some (v, ch\<lparr>buffer := vs\<rparr>))"

text \<open>
  An unbuffered channel \<open>make(chan T)\<close>, as \<open>Transaction.Done\<close> makes them: a send goes
  through only while a reader is blocked in \<open><-c\<close>. The model keeps the number of readers
  blocked on the channel and the values handed to readers so far. No code here sends on
  such a channel except by \<open>select\<close> with a \<open>default\<close> branch, so no sender ever waits.
\<close>

record 'a syncchan =
  receivers :: nat
  delivered :: "'a list"

definition make_syncchan :: "'a syncchan" where
  "make_syncchan = \<lparr>receivers = 0, delivered = []\<rparr>"

text \<open>\<open>select { case c <- v: default: }\<close> on an unbuffered channel.\<close>

definition trySend :: "'a syncchan \<Rightarrow> 'a \<Rightarrow> 'a syncchan" where
  "trySend ch v =
     (if 0 < receivers ch
      then ch\<lparr>receivers := receivers ch - 1, delivered := delivered ch @ [v]\<rparr>
      else ch)"

text \<open>A reader starts \<open><-c\<close> (an action of the transaction's observers, not of the package).\<close>

definition awaitValue :: "'a syncchan \<Rightarrow> 'a syncchan" where
  "awaitValue ch = ch\<lparr>receivers := Suc (receivers ch)\<rparr>"

section \<open>Statistics and telemetry (logger.go)\<close>

text \<open>
  \<open>QueryStats\<close>: the statement of the sample. Its three durations are differences of
  wall-clock readings and are left out, as are \<open>QueryTime\<close> of \<open>Meta\<close> and \<open>Results\<close>.
\<close>

record QueryStats =
  Query :: string

record stats =
  inProgressQueries :: int64
  totalSuccessQueries :: int64
  totalFailedQueries :: int64
  sampleChan :: "QueryStats chan"

definition newStats :: stats where
  "newStats = \<lparr>inProgressQueries = 0, totalSuccessQueries = 0, totalFailedQueries = 0,
               sampleChan = make_chan 100\<rparr>"

text \<open>\<open>select { case s.sampleChan <- sample: default: }\<close>\<close>

definition stats_sample :: "stats \<Rightarrow> QueryStats \<Rightarrow> stats" where
  "stats_sample s sample =
     (case send (sampleChan s) sample of
        Some ch \<Rightarrow> s\<lparr>sampleChan := ch\<rparr>
      | None \<Rightarrow> s)"

section \<open>The relay (admission tickets)\<close>

text \<open>\<open>relayChan\<close> is the channel \<open>setRelaySize\<close> made (\<open>NewClient\<close> always calls it).\<close>

record relay =
  relayChan :: "bool chan"

definition setRelaySize :: "relay \<Rightarrow> nat \<Rightarrow> relay" where
  "setRelaySize t n = t\<lparr>relayChan := make_chan n\<rparr>"

text \<open>\<open>start\<close>: \<open>t.relayChan <- true\<close>; \<open>None\<close> when the send blocks.\<close>

definition relay_start :: "relay \<Rightarrow> relay option" where
  "relay_start t =
     (case send (relayChan t) True of
        Some ch \<Rightarrow> Some (t\<lparr>relayChan := ch\<rparr>)
      | None \<Rightarrow> None)"

text \<open>\<open>end\<close>: \<open>select { case <-t.relayChan: default: }\<close>\<close>

definition relay_end :: "relay \<Rightarrow> relay" where
  "relay_end t =
     (case receive (relayChan t) of
        Some (v, ch) \<Rightarrow> t\<lparr>relayChan := ch\<rparr>
      | None \<Rightarrow> t)"

text \<open>
  \<open>conditionalEnd(err *error)\<close> tests the pointer it is given, \<open>if err != nil\<close>, not the
  error the pointer refers to. A pointer is an address or \<open>None\<close> for nil.
\<close>

type_synonym ptr = "nat option"

definition conditionalEnd :: "relay \<Rightarrow> ptr \<Rightarrow> relay" where
  "conditionalEnd t err = (if err \<noteq> None then relay_end t else t)"

section \<open>Configuration\<close>

record Config =
  RetryOnDeadlock :: bool
  RetryOnDeadlockCount :: int64
  RetryOnDeadlockDelay :: duration
  Timeout :: duration
  MaxQueuedQueries :: int64
  MaxOpenConns :: int64
  MaxIdleConns :: int64
  ConnMaxLifetime :: duration
  SyncAfterTransaction :: bool

text \<open>Durations are nanoseconds.\<close>

definition NewDefaultConfig :: Config where
  "NewDefaultConfig =
     \<lparr>RetryOnDeadlock = True, RetryOnDeadlockCount = 5, RetryOnDeadlockDelay = 10000000,
      Timeout = 10000000000, MaxQueuedQueries = 10000, MaxOpenConns = 20, MaxIdleConns = 20,
      ConnMaxLifetime = 60000000000, SyncAfterTransaction = False\<rparr>"

section \<open>Transactions (transaction.go)\<close>

text \<open>
  The driver's \<open>*sql.Tx\<close>: its identity, and what its successive \<open>Commit\<close>/\<open>Rollback\<close>
  calls return (the driver is outside the package; its answers are a parameter).
\<close>

record Tx =
  tx_id :: nat
  tx_replies :: "nat \<Rightarrow> error option"
  tx_ncalls :: nat

definition Tx_finish :: "Tx \<Rightarrow> Tx \<times> error option" where
  "Tx_finish tx = (tx\<lparr>tx_ncalls := Suc (tx_ncalls tx)\<rparr>, tx_replies tx (tx_ncalls tx))"

text \<open>
  \<open>Transaction\<close>: the handle, the configuration and the observers' channels (addresses
  into the channel store below). Its fields \<open>s\<close> and \<open>r\<close> point to the statistics and the
  relay of the client that began it; those two objects are the \<open>e_s\<close> and \<open>e_r\<close> of the
  environment the methods run in. The tracer, the span, the start time and the lock are
  left out.
\<close>

record Transaction =
  t_tx :: Tx
  t_config :: Config
  t_done :: "nat list"

record tx_env =
  e_s :: stats
  e_r :: relay
  e_chans :: "error option syncchan list"

definition newTransaction :: "Tx \<Rightarrow> Config \<Rightarrow> Transaction" where
  "newTransaction tx config = \<lparr>t_tx = tx, t_config = config, t_done = []\<rparr>"

text \<open>
  \<open>context.Context\<close>: what \<open>ctx.Value("tx").(*Transaction)\<close> finds (\<open>None\<close> when the
  assertion fails) and what \<open>getSyncFromCtx\<close> finds (the \<open>Sync\<close> flag of the
  \<open>*transactSync\<close>, \<open>None\<close> when there is none). Two handles are the same transaction
  when their \<open>tx_id\<close> agree.
\<close>

record Context =
  ctx_tx :: "Transaction option"
  ctx_sync :: "bool option"

definition background :: Context where
  "background = \<lparr>ctx_tx = None, ctx_sync = None\<rparr>"

definition WithContext :: "Transaction \<Rightarrow> Context \<Rightarrow> Context" where
  "WithContext t ctx = ctx\<lparr>ctx_tx := Some t\<rparr>"

definition checkIfSyncNeeded :: "Context \<Rightarrow> bool" where
  "checkIfSyncNeeded ctx = (case ctx_sync ctx of Some sync \<Rightarrow> sync | None \<Rightarrow> False)"

definition WithSync :: "Context \<Rightarrow> Context" where
  "WithSync ctx = (case ctx_sync ctx of Some sync \<Rightarrow> ctx | None \<Rightarrow> ctx\<lparr>ctx_sync := Some False\<rparr>)"

text \<open>\<open>Done\<close>: \<open>c := make(chan error); t.done = append(t.done, c); return c\<close>\<close>

definition Transaction_Done :: "Transaction \<Rightarrow> tx_env \<Rightarrow> (Transaction \<times> tx_env) \<times> nat" where
  "Transaction_Done t env =
     (let c = length (e_chans env)
      in ((t\<lparr>t_done := t_done t @ [c]\<rparr>, env\<lparr>e_chans := e_chans env @ [make_syncchan]\<rparr>), c))"

text \<open>\<open>close\<close>: \<open>for _, c := range t.done { select { case c <- err: default: } }\<close>\<close>

definition Transaction_close :: "Transaction \<Rightarrow> error option \<Rightarrow> tx_env \<Rightarrow> tx_env" where
  "Transaction_close t err env =
     env\<lparr>e_chans := fold (\<lambda>c chans. chans[c := trySend (chans ! c) err]) (t_done t) (e_chans env)\<rparr>"

text \<open>
  The deferred closure of \<open>Commit\<close> and \<open>Rollback\<close> (\<open>if *err == nil ... else ...\<close>), and
  the two deferred calls that run after it: \<open>t.r.end()\<close>, then the decrement of the
  in-progress counter.
\<close>

definition countResult :: "error option \<Rightarrow> stats \<Rightarrow> stats" where
  "countResult err s =
     (if err = None then s\<lparr>totalSuccessQueries := totalSuccessQueries s + 1\<rparr>
      else s\<lparr>totalFailedQueries := totalFailedQueries s + 1\<rparr>)"

definition tx_deferred :: "error option \<Rightarrow> tx_env \<Rightarrow> tx_env" where
  "tx_deferred err env =
     (let env1 = env\<lparr>e_s := countResult err (e_s env)\<rparr>;
          env2 = env1\<lparr>e_r := relay_end (e_r env1)\<rparr>
      in env2\<lparr>e_s := (e_s env2)\<lparr>inProgressQueries := inProgressQueries (e_s env2) - 1\<rparr>\<rparr>)"

definition Transaction_Commit ::
  "Transaction \<Rightarrow> Context \<Rightarrow> tx_env \<Rightarrow> (Transaction \<times> tx_env) \<times> error option" where
  "Transaction_Commit t ctx env =
     (case ctx_tx ctx of
        Some other \<Rightarrow> ((t, env), None)
      | None \<Rightarrow>
          (let (tx1, err) = Tx_finish (t_tx t);
               t1 = t\<lparr>t_tx := tx1\<rparr>;
               env1 = env\<lparr>e_s := stats_sample (e_s env) \<lparr>Query = ''COMMIT''\<rparr>\<rparr>;
               env2 = Transaction_close t1 err env1
           in ((t1, tx_deferred err env2), err)))"

definition Transaction_Rollback ::
  "Transaction \<Rightarrow> Context \<Rightarrow> tx_env \<Rightarrow> (Transaction \<times> tx_env) \<times> error option" where
  "Transaction_Rollback t ctx env =
     (case ctx_tx ctx of
        Some other \<Rightarrow> ((t, env), None)
      | None \<Rightarrow>
          (let (tx1, err) = Tx_finish (t_tx t);
               t1 = t\<lparr>t_tx := tx1\<rparr>;
               env1 = env\<lparr>e_s := stats_sample (e_s env) \<lparr>Query = ''ROLLBACK''\<rparr>\<rparr>;
               env2 = (if err \<noteq> None then Transaction_close t1 err env1
                       else Transaction_close t1 (Some ErrRollback) env1)
           in ((t1, tx_deferred err env2), err)))"


section \<open>The driver (database/sql), as far as the client uses it\<close>

text \<open>
  The pool and the server are outside the package. A \<open>DB\<close> carries what its successive
  calls reply (a parameter of the model), the number of calls made, and a log of the
  calls and of the sleeps of the retry loops, in the order they happen.
  A reply fails with \<open>r_err\<close>, or else yields the part the call asks for: the
  \<open>sql.Result\<close> (last insert id and rows affected), the \<open>*sql.Rows\<close> or the \<open>*sql.Tx\<close>.
\<close>

record Meta =
  LastIntertID :: int64
  RowsAffected :: int64

text \<open>
  One result set of a \<open>*sql.Rows\<close>: what \<open>ColumnTypes()\<close> returns, and for every row that
  \<open>Next()\<close> announces what \<open>Scan\<close> writes through the pointers of the row's elements.
\<close>

record resultset =
  rs_columnTypes :: "error + ColumnType list"
  rs_scans :: "(Element option list \<Rightarrow> Element option list) list"

record Rows =
  rows_current :: resultset
  rows_more :: "resultset list"

record Results =
  Results_Columns :: Columns
  Results_Rows :: "Row list"

record MultiResults =
  MultiResults_Results :: "Results list"

record response =
  r_err :: "error option"
  r_result :: "int64 \<times> int64"
  r_rows :: Rows
  r_tx :: Tx

datatype event =
    EvExec string "string list"
  | EvQuery string "string list"
  | EvBeginTx
  | EvSleep duration

record DB =
  replies :: "nat \<Rightarrow> response"
  ncalls :: nat
  db_log :: "event list"
  MaxOpenConnections :: int64

record TxOptions =
  Isolation :: int
  ReadOnly :: bool

definition DB_call :: "event \<Rightarrow> DB \<Rightarrow> DB \<times> response" where
  "DB_call ev d = (d\<lparr>ncalls := Suc (ncalls d), db_log := db_log d @ [ev]\<rparr>, replies d (ncalls d))"

definition ExecContext :: "DB \<Rightarrow> string \<Rightarrow> string list \<Rightarrow> DB \<times> (int64 \<times> int64) option \<times> error option" where
  "ExecContext d query args =
     (let (d1, rp) = DB_call (EvExec query args) d
      in (d1, if r_err rp = None then Some (r_result rp) else None, r_err rp))"

definition QueryContext :: "DB \<Rightarrow> string \<Rightarrow> string list \<Rightarrow> DB \<times> Rows option \<times> error option" where
  "QueryContext d query args =
     (let (d1, rp) = DB_call (EvQuery query args) d
      in (d1, if r_err rp = None then Some (r_rows rp) else None, r_err rp))"

definition BeginTx :: "DB \<Rightarrow> TxOptions option \<Rightarrow> DB \<times> (error + Tx)" where
  "BeginTx d opts =
     (let (d1, rp) = DB_call EvBeginTx d
      in (d1, case r_err rp of Some err \<Rightarrow> Inl err | None \<Rightarrow> Inr (r_tx rp)))"

text \<open>\<open>time.Sleep\<close>, recorded in the log of the client's calls.\<close>

definition Sleep :: "DB \<Rightarrow> duration \<Rightarrow> DB" where
  "Sleep d delay = d\<lparr>db_log := db_log d @ [EvSleep delay]\<rparr>"

definition newMeta :: "int64 \<times> int64 \<Rightarrow> Meta" where
  "newMeta r = \<lparr>LastIntertID = fst r, RowsAffected = snd r\<rparr>"

text \<open>
  \<open>newResultsFromSqlRows\<close>: \<open>for rows.Next() { row, err := results.Columns.newRow(); ...;
  rows.Scan(pointers...); results.Rows = append(results.Rows, row) }\<close>
\<close>

fun scanRows ::
  "Columns \<Rightarrow> (Element option list \<Rightarrow> Element option list) list \<Rightarrow> Row list \<Rightarrow> error + Row list" where
  "scanRows cols [] acc = Inr acc"
| "scanRows cols (scan # rest) acc =
     (case newRow cols of
        Inl err \<Rightarrow> Inl err
      | Inr row \<Rightarrow> scanRows cols rest (acc @ [row\<lparr>Elements := scan (Elements row)\<rparr>]))"

definition newResultsFromSqlRows :: "resultset \<Rightarrow> error + Results" where
  "newResultsFromSqlRows rs =
     (case rs_columnTypes rs of
        Inl err \<Rightarrow> Inl err
      | Inr cts \<Rightarrow>
          (let cols = newColumns cts
           in case scanRows cols (rs_scans rs) [] of
                Inl err \<Rightarrow> Inl err
              | Inr rows \<Rightarrow> Inr \<lparr>Results_Columns = cols, Results_Rows = rows\<rparr>))"

text \<open>
  The loop of \<open>MultiQuery\<close> over the result sets: \<open>for { results, err :=
  newResultsFromSqlRows(rows); if err != nil { return nil, err }; ...;
  if rows.NextResultSet() == false { break } }\<close>
\<close>

fun drainResultSets :: "resultset \<Rightarrow> resultset list \<Rightarrow> Results list \<Rightarrow> error + Results list" where
  "drainResultSets rs rest acc =
     (case newResultsFromSqlRows rs of
        Inl err \<Rightarrow> Inl err
      | Inr results \<Rightarrow>
          (case rest of
             [] \<Rightarrow> Inr (acc @ [results])
           | next_rs # rest' \<Rightarrow> drainResultSets next_rs rest' (acc @ [results])))"

section \<open>The client (client.go)\<close>

text \<open>
  \<open>Client\<close>: the pool, the replica (a pointer to another client, \<open>None\<close> when nil), the
  configuration, the statistics and the relay. The mutex is left out: the model runs one
  call at a time.
\<close>

datatype Client =
  Client (c_db: DB) (c_replica: "Client option") (c_config: Config) (c_s: stats) (c_r: relay)

definition with_db :: "DB \<Rightarrow> Client \<Rightarrow> Client" where
  "with_db d c = Client d (c_replica c) (c_config c) (c_s c) (c_r c)"

definition with_replica :: "Client option \<Rightarrow> Client \<Rightarrow> Client" where
  "with_replica rep c = Client (c_db c) rep (c_config c) (c_s c) (c_r c)"

definition with_s :: "stats \<Rightarrow> Client \<Rightarrow> Client" where
  "with_s s c = Client (c_db c) (c_replica c) (c_config c) s (c_r c)"

definition with_r :: "relay \<Rightarrow> Client \<Rightarrow> Client" where
  "with_r r c = Client (c_db c) (c_replica c) (c_config c) (c_s c) r"

definition SetReplica :: "Client \<Rightarrow> Client \<Rightarrow> Client" where
  "SetReplica c replica = with_replica (Some replica) c"

text \<open>
  \<open>limitReached\<close>: \<open>atomic.AddInt64(c.s.inProgressQueries, 1)\<close>, then
  \<open>atomic.LoadInt64(c.s.inProgressQueries) - int64(internalStats.MaxOpenConnections) >
  c.config.MaxQueuedQueries\<close> on 64-bit signed integers.
\<close>

definition limitReached :: "Client \<Rightarrow> Client \<times> error option" where
  "limitReached c =
     (let c1 = with_s ((c_s c)\<lparr>inProgressQueries := inProgressQueries (c_s c) + 1\<rparr>) c;
          internalStats = c_db c1
      in if sint (MaxQueuedQueries (c_config c1))
              < sint (inProgressQueries (c_s c1) - MaxOpenConnections internalStats)
         then (c1, Some ErrQueueOverloaded)
         else (c1, None))"

text \<open>
  The retry loop, written three times in the source (\<open>Exec\<close>, \<open>Query\<close>, \<open>MultiQuery\<close>)
  with the driver call as the only difference:
  \<open>for ; i > 0; i-- { result, err = attempt; if IsErrorCode(err, ErrMySQLDeadlock) {
  time.Sleep(c.config.RetryOnDeadlockDelay); continue }; break }\<close>.
  The loop variable is read as a signed number; \<open>i--\<close> happens only when \<open>i > 0\<close> and
  cannot wrap.
\<close>

function retryLoop ::
  "(DB \<Rightarrow> DB \<times> 'r option \<times> error option) \<Rightarrow> duration \<Rightarrow> int
     \<Rightarrow> DB \<times> 'r option \<times> error option \<Rightarrow> DB \<times> 'r option \<times> error option" where
  "retryLoop attempt delay i (d, result, err) =
     (if 0 < i then
        (case attempt d of
           (d1, result1, err1) \<Rightarrow>
             if IsErrorCode err1 ErrMySQLDeadlock
             then retryLoop attempt delay (i - 1) (Sleep d1 delay, result1, err1)
             else (d1, result1, err1))
      else (d, result, err))"
  by pat_completeness auto
termination
  by (relation "measure (\<lambda>(attempt, delay, i, st). nat i)") auto

declare retryLoop.simps [simp del]

text \<open>\<open>i := 1; if c.config.RetryOnDeadlock { i += c.config.RetryOnDeadlockCount }\<close>\<close>

definition attemptLimit :: "Config \<Rightarrow> int64" where
  "attemptLimit config =
     (if RetryOnDeadlock config then 1 + RetryOnDeadlockCount config else 1)"

text \<open>
  The deferred closure of \<open>Exec\<close>, \<open>Query\<close> and \<open>MultiQuery\<close>:
  \<open>atomic.AddInt64(c.s.inProgressQueries, -1)\<close>, then the success or failure counter
  according to \<open>*err\<close>.
\<close>

definition call_deferred :: "error option \<Rightarrow> Client \<Rightarrow> Client" where
  "call_deferred err c =
     with_s (countResult err ((c_s c)\<lparr>inProgressQueries := inProgressQueries (c_s c) - 1\<rparr>)) c"

text \<open>
  \<open>Exec\<close>. \<open>execResult\<close> is the end of the function, from \<open>if err != nil\<close> on: with no
  attempt made (\<open>i \<le> 0\<close>) \<open>result\<close> and \<open>err\<close> are both nil and \<open>newMeta(result)\<close>
  panics. On return, and on a panic, the deferred calls run last to first: \<open>c.r.end()\<close>,
  then the closure. The timeout of the context is not modelled.
\<close>

definition execResult :: "(int64 \<times> int64) option \<Rightarrow> error option \<Rightarrow> (error + Meta) outcome" where
  "execResult result err =
     (case err of
        Some e \<Rightarrow> Returned (Inl e)
      | None \<Rightarrow>
          (case result of
             None \<Rightarrow> Panicked ''nil pointer dereference''
           | Some res \<Rightarrow> Returned (Inr (newMeta res))))"

definition Client_Exec ::
  "Client \<Rightarrow> Context \<Rightarrow> string \<Rightarrow> string list \<Rightarrow> Client \<times> (error + Meta) outcome" where
  "Client_Exec c ctx query args =
     (case limitReached c of
        (c1, Some e) \<Rightarrow> (call_deferred (Some e) c1, Returned (Inl e))
      | (c1, None) \<Rightarrow>
          (let i = attemptLimit (c_config c1)
           in case relay_start (c_r c1) of
                None \<Rightarrow> (c1, Blocked)
              | Some rl \<Rightarrow>
                  (case retryLoop (\<lambda>d. ExecContext d query args)
                          (RetryOnDeadlockDelay (c_config c1)) (sint i) (c_db c1, None, None) of
                     (d, result, err) \<Rightarrow>
                       (let c2 = with_s (stats_sample (c_s c1) \<lparr>Query = query\<rparr>) (with_db d (with_r rl c1))
                        in (call_deferred err (with_r (relay_end (c_r c2)) c2), execResult result err)))))"

text \<open>
  \<open>Query\<close> after the replica check. When the context asks for a sync, the session
  variable is set before the loop and reset by a deferred call; both results are
  ignored. \<open>queryResult\<close> is the end of the function, from \<open>if err != nil\<close> on: what is
  returned, and the \<open>err\<close> the closure then sees (\<open>results, err :=
  newResultsFromSqlRows(rows)\<close> assigns the function's \<open>err\<close>). The deferred calls run
  last to first: \<open>rows.Close()\<close>, the reset of \<open>wsrep_sync_wait\<close>, \<open>c.r.end()\<close>, the
  closure.
\<close>

definition syncWait :: "Context \<Rightarrow> string \<Rightarrow> DB \<Rightarrow> DB" where
  "syncWait ctx statement d =
     (if checkIfSyncNeeded ctx then fst (ExecContext d statement []) else d)"

definition queryResult ::
  "Rows option \<Rightarrow> error option \<Rightarrow> (error + Results) outcome \<times> error option" where
  "queryResult rows err =
     (case err of
        Some e \<Rightarrow> (Returned (Inl e), Some e)
      | None \<Rightarrow>
          (case rows of
             None \<Rightarrow> (Panicked ''nil pointer dereference'', None)
           | Some rs \<Rightarrow>
               (case newResultsFromSqlRows (rows_current rs) of
                  Inl e \<Rightarrow> (Returned (Inl e), Some e)
                | Inr results \<Rightarrow> (Returned (Inr results), None))))"

definition Query_primary ::
  "Client \<Rightarrow> Context \<Rightarrow> string \<Rightarrow> string list \<Rightarrow> Client \<times> (error + Results) outcome" where
  "Query_primary c ctx query args =
     (case limitReached c of
        (c1, Some e) \<Rightarrow> (call_deferred (Some e) c1, Returned (Inl e))
      | (c1, None) \<Rightarrow>
          (let i = attemptLimit (c_config c1)
           in case relay_start (c_r c1) of
                None \<Rightarrow> (c1, Blocked)
              | Some rl \<Rightarrow>
                  (case retryLoop (\<lambda>d. QueryContext d query args)
                          (RetryOnDeadlockDelay (c_config c1)) (sint i)
                          (syncWait ctx ''SET SESSION wsrep_sync_wait=1'' (c_db c1), None, None) of
                     (d, rows, err) \<Rightarrow>
                       (let (out, err') = queryResult rows err;
                            d' = syncWait ctx ''SET SESSION wsrep_sync_wait=0'' d;
                            c2 = with_s (stats_sample (c_s c1) \<lparr>Query = query\<rparr>) (with_db d' (with_r rl c1))
                        in (call_deferred err' (with_r (relay_end (c_r c2)) c2), out)))))"

text \<open>\<open>Query\<close>: \<open>if c.replica != nil { return c.replica.Query(ctx, query, args...) }\<close>\<close>

fun Client_Query ::
  "Client \<Rightarrow> Context \<Rightarrow> string \<Rightarrow> string list \<Rightarrow> Client \<times> (error + Results) outcome" where
  "Client_Query (Client db (Some replica) config s r) ctx query args =
     (case Client_Query replica ctx query args of
        (replica', out) \<Rightarrow> (Client db (Some replica') config s r, out))"
| "Client_Query (Client db None config s r) ctx query args =
     Query_primary (Client db None config s r) ctx query args"

text \<open>
  \<open>MultiQuery\<close>. It has no replica check and no sync. \<open>multiResult\<close> is the end of the
  function. Inside the loop over the result sets \<open>results, err := ...\<close> declares a new
  \<open>err\<close>, so the closure still sees nil when decoding fails.
\<close>

definition multiResult :: "Rows option \<Rightarrow> error option \<Rightarrow> (error + MultiResults) outcome" where
  "multiResult rows err =
     (case err of
        Some e \<Rightarrow> Returned (Inl e)
      | None \<Rightarrow>
          (case rows of
             None \<Rightarrow> Panicked ''nil pointer dereference''
           | Some rs \<Rightarrow>
               (case drainResultSets (rows_current rs) (rows_more rs) [] of
                  Inl e \<Rightarrow> Returned (Inl e)
                | Inr results \<Rightarrow> Returned (Inr \<lparr>MultiResults_Results = results\<rparr>))))"

definition Client_MultiQuery ::
  "Client \<Rightarrow> Context \<Rightarrow> string \<Rightarrow> string list \<Rightarrow> Client \<times> (error + MultiResults) outcome" where
  "Client_MultiQuery c ctx query args =
     (case limitReached c of
        (c1, Some e) \<Rightarrow> (call_deferred (Some e) c1, Returned (Inl e))
      | (c1, None) \<Rightarrow>
          (let i = attemptLimit (c_config c1)
           in case relay_start (c_r c1) of
                None \<Rightarrow> (c1, Blocked)
              | Some rl \<Rightarrow>
                  (case retryLoop (\<lambda>d. QueryContext d query args)
                          (RetryOnDeadlockDelay (c_config c1)) (sint i) (c_db c1, None, None) of
                     (d, rows, err) \<Rightarrow>
                       (let c2 = with_s (stats_sample (c_s c1) \<lparr>Query = query\<rparr>) (with_db d (with_r rl c1))
                        in (call_deferred err (with_r (relay_end (c_r c2)) c2), multiResult rows err)))))"

text \<open>\<open>call\<close> builds \<open>CALL proc(?, ?, ...);\<close>\<close>

fun join :: "string list \<Rightarrow> string \<Rightarrow> string" where
  "join [] sep = []"
| "join [x] sep = x"
| "join (x # y # xs) sep = x @ sep @ join (y # xs) sep"

definition call :: "string \<Rightarrow> nat \<Rightarrow> string" where
  "call procedure argsCount =
     ''CALL '' @ procedure @ ''('' @ join (replicate argsCount ''?'') '', '' @ '');''"

definition Client_Call ::
  "Client \<Rightarrow> Context \<Rightarrow> string \<Rightarrow> string list \<Rightarrow> Client \<times> (error + Results) outcome" where
  "Client_Call c ctx procedure args = Client_Query c ctx (call procedure (length args)) args"

definition Client_MultiCall ::
  "Client \<Rightarrow> Context \<Rightarrow> string \<Rightarrow> string list \<Rightarrow> Client \<times> (error + MultiResults) outcome" where
  "Client_MultiCall c ctx procedure args = Client_MultiQuery c ctx (call procedure (length args)) args"

text \<open>
  \<open>Begin\<close> after the replica check. The function's \<open>err\<close> is a local variable; \<open>&err\<close>
  is its address, here \<open>Some 0\<close>. \<open>if err := c.limitReached(); err != nil\<close> declares
  a second \<open>err\<close>, so on that path the deferred closure \<open>if *e != nil\<close> reads nil.
  The deferred calls run last to first: \<open>c.r.conditionalEnd(&err)\<close>, then the closure.
\<close>

definition Begin_primary ::
  "Client \<Rightarrow> Context \<Rightarrow> TxOptions option \<Rightarrow> Client \<times> (error + Transaction) outcome" where
  "Begin_primary c ctx opts =
     (case ctx_tx ctx of
        Some tx \<Rightarrow> (c, Returned (Inr tx))
      | None \<Rightarrow>
          (case limitReached c of
             (c1, Some e) \<Rightarrow> (c1, Returned (Inl e))
           | (c1, None) \<Rightarrow>
               (case relay_start (c_r c1) of
                  None \<Rightarrow> (c1, Blocked)
                | Some rl \<Rightarrow>
                    (case BeginTx (c_db c1) opts of
                       (d, res) \<Rightarrow>
                         (let c2 = with_s (stats_sample (c_s c1) \<lparr>Query = ''BEGIN''\<rparr>) (with_db d (with_r rl c1));
                              c3 = with_r (conditionalEnd (c_r c2) (Some 0)) c2
                          in case res of
                               Inl e \<Rightarrow>
                                 (with_s ((c_s c3)\<lparr>inProgressQueries := inProgressQueries (c_s c3) - 1\<rparr>) c3,
                                  Returned (Inl e))
                             | Inr tx \<Rightarrow> (c3, Returned (Inr (newTransaction tx (c_config c3)))))))))"

definition readOnly :: "TxOptions option \<Rightarrow> bool" where
  "readOnly opts = (case opts of Some options \<Rightarrow> ReadOnly options | None \<Rightarrow> False)"

text \<open>\<open>Begin\<close>: \<open>if opts != nil && opts.ReadOnly && c.replica != nil { return c.replica.Begin(ctx, opts) }\<close>\<close>

fun Client_Begin ::
  "Client \<Rightarrow> Context \<Rightarrow> TxOptions option \<Rightarrow> Client \<times> (error + Transaction) outcome" where
  "Client_Begin (Client db (Some replica) config s r) ctx opts =
     (if readOnly opts
      then (case Client_Begin replica ctx opts of
              (replica', out) \<Rightarrow> (Client db (Some replica') config s r, out))
      else Begin_primary (Client db (Some replica) config s r) ctx opts)"
| "Client_Begin (Client db None config s r) ctx opts =
     Begin_primary (Client db None config s r) ctx opts"


section \<open>Invariants and example values\<close>

text \<open>
  The caches of a \<open>Columns\<close> are valid when each is either still nil or holds what its
  method computes from the column types. \<open>newColumns\<close> starts with both nil, and the two
  methods keep the property.
\<close>

definition cachesValid :: "Columns \<Rightarrow> bool" where
  "cachesValid c \<longleftrightarrow>
     names c \<in> {None, Some (fillNames (columnTypes c))} \<and>
     indexes c \<in> {None, Some (fillIndexes (fillNames (columnTypes c)))}"

definition exampleColumns :: Columns where
  "exampleColumns = newColumns
     [\<lparr>Name = ''id'', ScanType = ''int64''\<rparr>, \<lparr>Name = ''title'', ScanType = ''string''\<rparr>,
      \<lparr>Name = ''id'', ScanType = ''uint8''\<rparr>]"

definition exampleRow :: Row where
  "exampleRow = \<lparr>Elements = [Some (zeroElement\<lparr>Type := elementInt, NullInt64 := Some (7, True)\<rparr>),
       Some (zeroElement\<lparr>Type := elementString, NullString := Some (''a'', True)\<rparr>),
       Some (zeroElement\<lparr>Type := elementInt, NullInt64 := Some (9, True)\<rparr>)],
     Columns = exampleColumns\<rparr>"

text \<open>A driver whose every call succeeds, and one whose every call reports a deadlock.\<close>

definition exampleTx :: Tx where
  "exampleTx = \<lparr>tx_id = 1, tx_replies = (\<lambda>n. None), tx_ncalls = 0\<rparr>"

definition exampleResultSet :: resultset where
  "exampleResultSet =
     \<lparr>rs_columnTypes = Inr [\<lparr>Name = ''id'', ScanType = ''int64''\<rparr>], rs_scans = [\<lambda>es. es]\<rparr>"

definition okReply :: response where
  "okReply = \<lparr>r_err = None, r_result = (1, 1),
              r_rows = \<lparr>rows_current = exampleResultSet, rows_more = []\<rparr>, r_tx = exampleTx\<rparr>"


definition exampleDB :: "(nat \<Rightarrow> response) \<Rightarrow> DB" where
  "exampleDB rs = \<lparr>replies = rs, ncalls = 0, db_log = [], MaxOpenConnections = 20\<rparr>"

definition exampleClient :: "(nat \<Rightarrow> response) \<Rightarrow> Client" where
  "exampleClient rs =
     Client (exampleDB rs) None NewDefaultConfig newStats (setRelaySize \<lparr>relayChan = make_chan 0\<rparr> 200)"

text \<open>The in-progress counters of a client and of the replicas behind it.\<close>

fun inProgressAll :: "Client \<Rightarrow> int64 list" where
  "inProgressAll (Client db None config s r) = [inProgressQueries s]"
| "inProgressAll (Client db (Some replica) config s r) = inProgressQueries s # inProgressAll replica"

text \<open>A client whose queue limit is already exceeded by the next call.\<close>

definition overloadedClient :: Client where
  "overloadedClient =
     Client (exampleDB (\<lambda>n. okReply)) None (NewDefaultConfig\<lparr>MaxQueuedQueries := 0\<rparr>)
       (newStats\<lparr>inProgressQueries := 20\<rparr>) (setRelaySize \<lparr>relayChan = make_chan 0\<rparr> 200)"


definition retriedLog :: "event \<Rightarrow> duration \<Rightarrow> nat \<Rightarrow> event list" where
  "retriedLog ev delay k = concat (replicate k [ev, EvSleep delay])"

definition syncLog :: "Context \<Rightarrow> string \<Rightarrow> event list" where
  "syncLog ctx statement = (if checkIfSyncNeeded ctx then [EvExec statement []] else [])"

definition syncCalls :: "Context \<Rightarrow> nat" where
  "syncCalls ctx = (if checkIfSyncNeeded ctx then 1 else 0)"



text \<open>
  The observers of a transaction are registered by \<open>Done\<close>, which gives each a fresh
  channel: the channels are distinct and exist in the store.
\<close>

definition observersValid :: "Transaction \<Rightarrow> tx_env \<Rightarrow> bool" where
  "observersValid t env \<longleftrightarrow> distinct (t_done t) \<and> (\<forall>c \<in> set (t_done t). c < length (e_chans env))"

text \<open>An observer starts to read from its channel.\<close>

definition observerWaits :: "nat \<Rightarrow> tx_env \<Rightarrow> tx_env" where
  "observerWaits c env = env\<lparr>e_chans := (e_chans env)[c := awaitValue (e_chans env ! c)]\<rparr>"

text \<open>The value \<open>Rollback\<close> hands to \<open>close\<close>.\<close>

definition rollbackSignal :: "error option \<Rightarrow> error option" where
  "rollbackSignal err = (if err \<noteq> None then err else Some ErrRollback)"

text \<open>
  An open transaction that holds one ticket, and its environment; the same transaction
  after its owner committed it, and an observer registered only then.
\<close>

definition exampleTransaction :: Transaction where
  "exampleTransaction = newTransaction exampleTx NewDefaultConfig"

definition exampleEnv :: tx_env where
  "exampleEnv = \<lparr>e_s = newStats\<lparr>inProgressQueries := 1\<rparr>,
                 e_r = \<lparr>relayChan = \<lparr>capacity = 200, buffer = [True]\<rparr>\<rparr>, e_chans = []\<rparr>"

definition afterCommit :: "Transaction \<times> tx_env" where
  "afterCommit = fst (Transaction_Commit exampleTransaction background exampleEnv)"

definition lateObserver :: "(Transaction \<times> tx_env) \<times> nat" where
  "lateObserver = Transaction_Done (fst afterCommit) (snd afterCommit)"

text \<open>Two observers registered on the open transaction, the first of them reading.\<close>

definition observedTransaction :: "Transaction \<times> tx_env" where
  "observedTransaction =
     (let (t1, env1) = fst (Transaction_Done exampleTransaction exampleEnv);
          (t2, env2) = fst (Transaction_Done t1 env1)
      in (t2, observerWaits 0 env2))"

text \<open>\<open>Done\<close> called on the transaction as a \<open>Commit\<close> or \<open>Rollback\<close> left it.\<close>

definition lateDone ::
  "(Transaction \<times> tx_env) \<times> error option \<Rightarrow> (Transaction \<times> tx_env) \<times> nat" where
  "lateDone finished = Transaction_Done (fst (fst finished)) (snd (fst finished))"


section \<open>Columns and rows\<close>

lemma fillNames_aux:
  "k + length cts \<le> length ns \<Longrightarrow>
   fold (\<lambda>(i, column) ns. ns[i := Name column]) (enumerate k cts) ns
     = take k ns @ map Name cts @ drop (k + length cts) ns"
proof (induction cts arbitrary: k ns)
  case Nil
  then show ?case by simp
next
  case (Cons c cts)
  have "k < length ns" using Cons.prems by simp
  then have t: "take (Suc k) (ns[k := Name c]) = take k ns @ [Name c]"
    by (simp add: take_Suc_conv_app_nth)
  show ?case using Cons.prems Cons.IH [of "Suc k" "ns[k := Name c]"] t by simp
qed

lemma fillNames_map: "fillNames cts = map Name cts"
  using fillNames_aux [of 0 cts "replicate (length cts) []"] by (simp add: fillNames_def)

lemma fillIndexes_snoc: "fillIndexes (ns @ [n]) = (fillIndexes ns)(n \<mapsto> length ns)"
  by (simp add: fillIndexes_def enumerate_append_eq)

lemma fillIndexes_Nil: "fillIndexes [] = Map.empty"
  by (simp add: fillIndexes_def)

lemma fillIndexes_None: "fillIndexes ns name = None \<longleftrightarrow> name \<notin> set ns"
  by (induction ns rule: rev_induct) (simp_all add: fillIndexes_snoc fillIndexes_Nil)

lemma fillIndexes_Some:
  "fillIndexes ns name = Some i \<longleftrightarrow>
     i < length ns \<and> ns ! i = name \<and> (\<forall>j. i < j \<and> j < length ns \<longrightarrow> ns ! j \<noteq> name)"
proof (induction ns rule: rev_induct)
  case Nil
  then show ?case by (simp add: fillIndexes_Nil)
next
  case (snoc n ns)
  show ?case
  proof (cases "n = name")
    case True
    have "(length ns = i) \<longleftrightarrow>
        (i < Suc (length ns) \<and> (ns @ [name]) ! i = name \<and>
          (\<forall>j. i < j \<and> j < Suc (length ns) \<longrightarrow> (ns @ [name]) ! j \<noteq> name))"
    proof
      assume "length ns = i"
      then show "i < Suc (length ns) \<and> (ns @ [name]) ! i = name \<and>
          (\<forall>j. i < j \<and> j < Suc (length ns) \<longrightarrow> (ns @ [name]) ! j \<noteq> name)"
        by auto
    next
      assume a: "i < Suc (length ns) \<and> (ns @ [name]) ! i = name \<and>
          (\<forall>j. i < j \<and> j < Suc (length ns) \<longrightarrow> (ns @ [name]) ! j \<noteq> name)"
      show "length ns = i"
      proof (rule ccontr)
        assume "length ns \<noteq> i"
        with a have "i < length ns" by simp
        moreover from a have "\<forall>j. i < j \<and> j < Suc (length ns) \<longrightarrow> (ns @ [name]) ! j \<noteq> name"
          by blast
        ultimately have "(ns @ [name]) ! length ns \<noteq> name" by blast
        then show False by simp
      qed
    qed
    with True show ?thesis by (simp add: fillIndexes_snoc)
  next
    case False
    have "(i < length ns \<and> ns ! i = name \<and> (\<forall>j. i < j \<and> j < length ns \<longrightarrow> ns ! j \<noteq> name))
      \<longleftrightarrow> (i < Suc (length ns) \<and> (ns @ [n]) ! i = name \<and>
          (\<forall>j. i < j \<and> j < Suc (length ns) \<longrightarrow> (ns @ [n]) ! j \<noteq> name))"
      using False by (auto simp: nth_append less_Suc_eq)
    with False snoc show ?thesis by (simp add: fillIndexes_snoc)
  qed
qed


lemma cachesValid_newColumns: "cachesValid (newColumns cts)"
  by (simp add: cachesValid_def newColumns_def)

lemma ColumnNames_valid:
  "cachesValid c \<Longrightarrow> snd (ColumnNames c) = map Name (columnTypes c)"
  by (auto simp: cachesValid_def ColumnNames_def fillNames_map Let_def split: option.splits)

lemma ColumnNames_preserves: "cachesValid c \<Longrightarrow> cachesValid (fst (ColumnNames c))"
  by (auto simp: cachesValid_def ColumnNames_def Let_def split: option.splits)

lemma ColumnIndex_lookup:
  "cachesValid c \<Longrightarrow>
   snd (ColumnIndex c name) =
     (case fillIndexes (map Name (columnTypes c)) name of
        Some index \<Rightarrow> Inr index
      | None \<Rightarrow> Inl (ErrorString ''column name not found''))"
  by (auto simp: cachesValid_def ColumnIndex_def ColumnNames_def fillNames_map Let_def
      split: option.splits prod.splits)

lemma ColumnIndex_preserves: "cachesValid c \<Longrightarrow> cachesValid (fst (ColumnIndex c name))"
  by (auto simp: cachesValid_def ColumnIndex_def ColumnNames_def Let_def
      split: option.splits prod.splits)

lemma GetElementByName_lookup:
  "snd (GetElementByName r name) =
     (case snd (ColumnIndex (Columns r) name) of
        Inl err \<Rightarrow> Returned None
      | Inr index \<Rightarrow> if index < length (Elements r) then Returned (Elements r ! index)
                     else Panicked ''index out of range'')"
  by (simp add: GetElementByName_def Let_def split: prod.splits sum.splits)

text \<open>
  Claim C10. For a \<open>Columns\<close> with valid caches, \<open>ColumnIndex(name)\<close> succeeds exactly when
  \<open>name\<close> occurs in \<open>ColumnNames()\<close>; the index it returns holds \<open>name\<close> and is the last
  position that does. For a row with one element per column, \<open>GetElementByName\<close> then
  returns the element at that index, and nil when the name is absent.
\<close>

theorem ColumnIndex_agrees_with_ColumnNames:
  assumes valid: "cachesValid (Columns r)"
    and len: "length (Elements r) = length (columnTypes (Columns r))"
  shows "((\<exists>i. snd (ColumnIndex (Columns r) name) = Inr i)
            \<longleftrightarrow> name \<in> set (snd (ColumnNames (Columns r))))
       \<and> (\<forall>i. snd (ColumnIndex (Columns r) name) = Inr i \<longrightarrow>
            i < length (snd (ColumnNames (Columns r)))
          \<and> snd (ColumnNames (Columns r)) ! i = name
          \<and> (\<forall>j. i < j \<and> j < length (snd (ColumnNames (Columns r)))
                 \<longrightarrow> snd (ColumnNames (Columns r)) ! j \<noteq> name)
          \<and> snd (GetElementByName r name) = Returned (Elements r ! i))
       \<and> (name \<notin> set (snd (ColumnNames (Columns r)))
            \<longrightarrow> snd (GetElementByName r name) = Returned None)"
proof -
  let ?ns = "map Name (columnTypes (Columns r))"
  have ns: "snd (ColumnNames (Columns r)) = ?ns"
    using valid by (rule ColumnNames_valid)
  have idx: "snd (ColumnIndex (Columns r) name) =
     (case fillIndexes ?ns name of Some index \<Rightarrow> Inr index
      | None \<Rightarrow> Inl (ErrorString ''column name not found''))"
    using valid by (rule ColumnIndex_lookup)
  show ?thesis
  proof (cases "fillIndexes ?ns name")
    case None
    then have "name \<notin> set ?ns" by (simp add: fillIndexes_None)
    with None show ?thesis
      by (simp add: ns idx GetElementByName_lookup)
  next
    case (Some k)
    then have k: "k < length ?ns" "?ns ! k = name"
      "\<forall>j. k < j \<and> j < length ?ns \<longrightarrow> ?ns ! j \<noteq> name"
      by (simp_all add: fillIndexes_Some)
    then have "name \<in> set ?ns" by (metis nth_mem)
    moreover have "snd (GetElementByName r name) = Returned (Elements r ! k)"
      using k(1) len by (simp add: GetElementByName_lookup idx Some)
    ultimately show ?thesis
      using k Some by (simp add: ns idx)
  qed
qed

theorem ColumnIndex_agrees_with_ColumnNames_witness:
  "cachesValid (Columns exampleRow)
   \<and> length (Elements exampleRow) = length (columnTypes (Columns exampleRow))
   \<and> snd (ColumnIndex (Columns exampleRow) ''id'') = Inr 2
   \<and> snd (ColumnNames (Columns exampleRow)) = [''id'', ''title'', ''id'']
   \<and> snd (GetElementByName exampleRow ''id'')
       = Returned (Some (zeroElement\<lparr>Type := elementInt, NullInt64 := Some (9, True)\<rparr>))
   \<and> snd (GetElementByName exampleRow ''price'') = Returned None"
proof -
  have v: "cachesValid (Columns exampleRow)"
    by (simp add: exampleRow_def exampleColumns_def cachesValid_def newColumns_def)
  have l: "length (Elements exampleRow) = length (columnTypes (Columns exampleRow))"
    by (simp add: exampleRow_def exampleColumns_def newColumns_def)
  have i: "snd (ColumnIndex (Columns exampleRow) ''id'') = Inr 2"
    by (simp add: exampleRow_def exampleColumns_def newColumns_def ColumnIndex_def
        ColumnNames_def fillNames_def fillIndexes_def Let_def)
  have n: "snd (ColumnNames (Columns exampleRow)) = [''id'', ''title'', ''id'']"
    by (simp add: exampleRow_def exampleColumns_def newColumns_def ColumnNames_def
        fillNames_def Let_def)
  from ColumnIndex_agrees_with_ColumnNames [OF v l, of "''id''"] i
  have "snd (GetElementByName exampleRow ''id'') = Returned (Elements exampleRow ! 2)"
    by blast
  moreover from ColumnIndex_agrees_with_ColumnNames [OF v l, of "''price''"] n
  have "snd (GetElementByName exampleRow ''price'') = Returned None"
    by simp
  ultimately show ?thesis using v l i n by (simp add: exampleRow_def)
qed


section \<open>Telemetry\<close>

lemma stats_sample_cases:
  "stats_sample s q =
     (if length (buffer (sampleChan s)) < capacity (sampleChan s)
      then s\<lparr>sampleChan := (sampleChan s)\<lparr>buffer := buffer (sampleChan s) @ [q]\<rparr>\<rparr>
      else s)"
  by (simp add: stats_sample_def send_def)

lemma stats_sample_capacity: "capacity (sampleChan (stats_sample s q)) = capacity (sampleChan s)"
  by (simp add: stats_sample_cases)

lemma stats_sample_counters:
  "inProgressQueries (stats_sample s q) = inProgressQueries s"
  "totalSuccessQueries (stats_sample s q) = totalSuccessQueries s"
  "totalFailedQueries (stats_sample s q) = totalFailedQueries s"
  by (simp_all add: stats_sample_cases)

lemma samples_buffer:
  "length (buffer (sampleChan s)) \<le> capacity (sampleChan s) \<Longrightarrow>
   buffer (sampleChan (fold (\<lambda>q s. stats_sample s q) qs s))
     = take (capacity (sampleChan s)) (buffer (sampleChan s) @ qs)"
proof (induction qs arbitrary: s)
  case Nil
  then show ?case by simp
next
  case (Cons q qs)
  let ?s' = "stats_sample s q"
  have le: "length (buffer (sampleChan ?s')) \<le> capacity (sampleChan ?s')"
    using Cons.prems by (simp add: stats_sample_cases)
  have cap: "capacity (sampleChan ?s') = capacity (sampleChan s)"
    by (rule stats_sample_capacity)
  have "take (capacity (sampleChan s)) (buffer (sampleChan ?s') @ qs)
      = take (capacity (sampleChan s)) (buffer (sampleChan s) @ q # qs)"
    using Cons.prems by (auto simp: stats_sample_cases take_Cons' Suc_diff_Suc)
  with Cons.IH [OF le] cap show ?case by simp
qed

text \<open>
  Claim C9. \<open>stats.sample\<close> is a send with a default branch: with a free slot the sample
  is queued at the back of the channel, with a full channel the statistics are left as
  they are (the sample is dropped); either way the call returns. Starting from
  \<open>newStats\<close>, whatever samples are published, the channel holds the first hundred of
  them and never more.
\<close>

theorem sample_enqueues_or_drops:
  "stats_sample s q =
     (case send (sampleChan s) q of
        Some ch \<Rightarrow> s\<lparr>sampleChan := (sampleChan s)\<lparr>buffer := buffer (sampleChan s) @ [q]\<rparr>\<rparr>
      | None \<Rightarrow> s)
   \<and> (send (sampleChan s) q = None \<longleftrightarrow> capacity (sampleChan s) \<le> length (buffer (sampleChan s)))
   \<and> buffer (sampleChan (fold (\<lambda>q s. stats_sample s q) qs newStats)) = take 100 qs
   \<and> length (buffer (sampleChan (fold (\<lambda>q s. stats_sample s q) qs newStats))) \<le> 100"
proof -
  have "buffer (sampleChan (fold (\<lambda>q s. stats_sample s q) qs newStats)) = take 100 qs"
    using samples_buffer [of newStats qs] by (simp add: newStats_def make_chan_def)
  then show ?thesis
    by (auto simp: stats_sample_def send_def)
qed


section \<open>The relay\<close>

lemma conditionalEnd_address: "conditionalEnd t (Some a) = relay_end t"
  by (simp add: conditionalEnd_def)

lemma conditionalEnd_nil: "conditionalEnd t None = t"
  by (simp add: conditionalEnd_def)

text \<open>
  Claim C2. \<open>Begin\<close> on a client with free tickets, no transaction in the context and a
  driver that opens the transaction: the call returns the new transaction with no error,
  and the ticket that \<open>start\<close> took is gone from the relay again, because
  \<open>conditionalEnd\<close> is given \<open>&err\<close>, which is never nil.
\<close>

theorem Begin_success_releases_ticket:
  "snd (Client_Begin (exampleClient (\<lambda>n. okReply)) background None)
      = Returned (Inr (newTransaction exampleTx NewDefaultConfig))
   \<and> relay_start (c_r (exampleClient (\<lambda>n. okReply)))
      = Some \<lparr>relayChan = \<lparr>capacity = 200, buffer = [True]\<rparr>\<rparr>
   \<and> c_r (fst (Client_Begin (exampleClient (\<lambda>n. okReply)) background None))
      = \<lparr>relayChan = \<lparr>capacity = 200, buffer = []\<rparr>\<rparr>
   \<and> inProgressQueries (c_s (fst (Client_Begin (exampleClient (\<lambda>n. okReply)) background None))) = 1"
  by (simp add: exampleClient_def exampleDB_def okReply_def Begin_primary_def background_def
      limitReached_def with_s_def with_r_def with_db_def NewDefaultConfig_def newStats_def
      setRelaySize_def make_chan_def relay_start_def relay_end_def send_def receive_def
      BeginTx_def DB_call_def stats_sample_def conditionalEnd_def newTransaction_def Let_def)


section \<open>The admission limit and the in-progress counter\<close>

lemma with_sel [simp]:
  "c_db (with_db d c) = d" "c_replica (with_db d c) = c_replica c"
  "c_config (with_db d c) = c_config c" "c_s (with_db d c) = c_s c" "c_r (with_db d c) = c_r c"
  "c_db (with_s s c) = c_db c" "c_replica (with_s s c) = c_replica c"
  "c_config (with_s s c) = c_config c" "c_s (with_s s c) = s" "c_r (with_s s c) = c_r c"
  "c_db (with_r r c) = c_db c" "c_replica (with_r r c) = c_replica c"
  "c_config (with_r r c) = c_config c" "c_s (with_r r c) = c_s c" "c_r (with_r r c) = r"
  "c_db (with_replica rep c) = c_db c" "c_replica (with_replica rep c) = rep"
  "c_config (with_replica rep c) = c_config c" "c_s (with_replica rep c) = c_s c"
  "c_r (with_replica rep c) = c_r c"
  by (simp_all add: with_db_def with_s_def with_r_def with_replica_def)

lemma call_deferred_sel [simp]:
  "c_db (call_deferred err c) = c_db c" "c_replica (call_deferred err c) = c_replica c"
  "c_config (call_deferred err c) = c_config c" "c_r (call_deferred err c) = c_r c"
  "inProgressQueries (c_s (call_deferred err c)) = inProgressQueries (c_s c) - 1"
  "sampleChan (c_s (call_deferred err c)) = sampleChan (c_s c)"
  by (simp_all add: call_deferred_def countResult_def)

lemma limitReached_sel [simp]:
  "c_db (fst (limitReached c)) = c_db c" "c_replica (fst (limitReached c)) = c_replica c"
  "c_config (fst (limitReached c)) = c_config c" "c_r (fst (limitReached c)) = c_r c"
  "inProgressQueries (c_s (fst (limitReached c))) = inProgressQueries (c_s c) + 1"
  "sampleChan (c_s (fst (limitReached c))) = sampleChan (c_s c)"
  by (simp_all add: limitReached_def Let_def)

lemma limitReached_result:
  "snd (limitReached c) =
     (if sint (MaxQueuedQueries (c_config c))
           < sint (inProgressQueries (c_s c) + 1 - MaxOpenConnections (c_db c))
      then Some ErrQueueOverloaded else None)"
  by (simp add: limitReached_def Let_def)

lemma sint_incr_minus:
  fixes a b :: int64
  assumes "sint a + 1 < 2 ^ 63"
    and "- (2 ^ 63) \<le> sint a + 1 - sint b" and "sint a + 1 - sint b < 2 ^ 63"
  shows "sint (a + 1 - b) = sint a + 1 - sint b"
proof -
  have "- (2 ^ 63) \<le> sint a" using sint_ge [of a] by simp
  then have "signed_take_bit 63 (sint a + 1) = sint a + 1"
    using assms(1) by (intro signed_take_bit_int_eq_self) simp_all
  then have a1: "sint (a + 1) = sint a + 1"
    by (simp add: sint_word_ariths)
  have "signed_take_bit 63 (sint a + 1 - sint b) = sint a + 1 - sint b"
    using assms(2,3) by (intro signed_take_bit_int_eq_self) simp_all
  then show ?thesis
    using a1 by (simp add: sint_word_ariths)
qed

lemma Exec_overloaded:
  "snd (limitReached c) = Some e \<Longrightarrow>
   Client_Exec c ctx query args = (call_deferred (Some e) (fst (limitReached c)), Returned (Inl e))"
  by (cases "limitReached c") (simp add: Client_Exec_def)

lemma Query_primary_overloaded:
  "snd (limitReached c) = Some e \<Longrightarrow>
   Query_primary c ctx query args = (call_deferred (Some e) (fst (limitReached c)), Returned (Inl e))"
  by (cases "limitReached c") (simp add: Query_primary_def)

lemma MultiQuery_overloaded:
  "snd (limitReached c) = Some e \<Longrightarrow>
   Client_MultiQuery c ctx query args = (call_deferred (Some e) (fst (limitReached c)), Returned (Inl e))"
  by (cases "limitReached c") (simp add: Client_MultiQuery_def)

lemma Begin_overloaded:
  "ctx_tx ctx = None \<Longrightarrow> snd (limitReached c) = Some e \<Longrightarrow>
   Begin_primary c ctx opts = (fst (limitReached c), Returned (Inl e))"
  by (cases "limitReached c") (simp add: Begin_primary_def)

text \<open>
  Claim C4. \<open>limitReached\<close> always adds one to the in-progress counter. It returns
  \<open>ErrQueueOverloaded\<close> exactly when the incremented counter minus the pool's
  \<open>MaxOpenConnections\<close> is greater than \<open>MaxQueuedQueries\<close> (in the 64-bit arithmetic of
  the code, which is the arithmetic of the integers as long as nothing overflows), and
  nil otherwise. On the overload path \<open>Exec\<close>, \<open>Query\<close>, \<open>MultiQuery\<close> and \<open>Begin\<close>
  (with no transaction in the context) return that error at once: the relay and the
  driver are left untouched.
\<close>

theorem limitReached_overload:
  "inProgressQueries (c_s (fst (limitReached c))) = inProgressQueries (c_s c) + 1
   \<and> (snd (limitReached c) = Some ErrQueueOverloaded \<longleftrightarrow>
        sint (MaxQueuedQueries (c_config c))
          < sint (inProgressQueries (c_s (fst (limitReached c))) - MaxOpenConnections (c_db c)))
   \<and> (snd (limitReached c) \<noteq> Some ErrQueueOverloaded \<longrightarrow> snd (limitReached c) = None)
   \<and> (sint (inProgressQueries (c_s c)) + 1 < 2 ^ 63
        \<and> - (2 ^ 63) \<le> sint (inProgressQueries (c_s c)) + 1 - sint (MaxOpenConnections (c_db c))
        \<and> sint (inProgressQueries (c_s c)) + 1 - sint (MaxOpenConnections (c_db c)) < 2 ^ 63
      \<longrightarrow> (snd (limitReached c) = Some ErrQueueOverloaded \<longleftrightarrow>
             sint (MaxQueuedQueries (c_config c))
               < sint (inProgressQueries (c_s c)) + 1 - sint (MaxOpenConnections (c_db c))))
   \<and> (snd (limitReached c) = Some ErrQueueOverloaded \<longrightarrow>
        snd (Client_Exec c ctx query args) = Returned (Inl ErrQueueOverloaded)
      \<and> c_r (fst (Client_Exec c ctx query args)) = c_r c
      \<and> c_db (fst (Client_Exec c ctx query args)) = c_db c
      \<and> snd (Query_primary c ctx query args) = Returned (Inl ErrQueueOverloaded)
      \<and> c_r (fst (Query_primary c ctx query args)) = c_r c
      \<and> c_db (fst (Query_primary c ctx query args)) = c_db c
      \<and> snd (Client_MultiQuery c ctx query args) = Returned (Inl ErrQueueOverloaded)
      \<and> c_r (fst (Client_MultiQuery c ctx query args)) = c_r c
      \<and> c_db (fst (Client_MultiQuery c ctx query args)) = c_db c
      \<and> (ctx_tx ctx = None \<longrightarrow>
            snd (Begin_primary c ctx opts) = Returned (Inl ErrQueueOverloaded)
          \<and> c_r (fst (Begin_primary c ctx opts)) = c_r c
          \<and> c_db (fst (Begin_primary c ctx opts)) = c_db c))"
proof -
  have int_reading: "sint (inProgressQueries (c_s c) + 1 - MaxOpenConnections (c_db c))
      = sint (inProgressQueries (c_s c)) + 1 - sint (MaxOpenConnections (c_db c))"
    if "sint (inProgressQueries (c_s c)) + 1 < 2 ^ 63"
      and "- (2 ^ 63) \<le> sint (inProgressQueries (c_s c)) + 1 - sint (MaxOpenConnections (c_db c))"
      and "sint (inProgressQueries (c_s c)) + 1 - sint (MaxOpenConnections (c_db c)) < 2 ^ 63"
    using that by (rule sint_incr_minus)
  have overload: "snd (Client_Exec c ctx query args) = Returned (Inl ErrQueueOverloaded)
      \<and> c_r (fst (Client_Exec c ctx query args)) = c_r c
      \<and> c_db (fst (Client_Exec c ctx query args)) = c_db c
      \<and> snd (Query_primary c ctx query args) = Returned (Inl ErrQueueOverloaded)
      \<and> c_r (fst (Query_primary c ctx query args)) = c_r c
      \<and> c_db (fst (Query_primary c ctx query args)) = c_db c
      \<and> snd (Client_MultiQuery c ctx query args) = Returned (Inl ErrQueueOverloaded)
      \<and> c_r (fst (Client_MultiQuery c ctx query args)) = c_r c
      \<and> c_db (fst (Client_MultiQuery c ctx query args)) = c_db c
      \<and> (ctx_tx ctx = None \<longrightarrow>
            snd (Begin_primary c ctx opts) = Returned (Inl ErrQueueOverloaded)
          \<and> c_r (fst (Begin_primary c ctx opts)) = c_r c
          \<and> c_db (fst (Begin_primary c ctx opts)) = c_db c)"
    if "snd (limitReached c) = Some ErrQueueOverloaded"
    using that
    by (simp add: Exec_overloaded Query_primary_overloaded MultiQuery_overloaded Begin_overloaded)
  have res: "snd (limitReached c) = Some ErrQueueOverloaded \<longleftrightarrow>
        sint (MaxQueuedQueries (c_config c))
          < sint (inProgressQueries (c_s c) + 1 - MaxOpenConnections (c_db c))"
    by (simp add: limitReached_result)
  have none: "snd (limitReached c) \<noteq> Some ErrQueueOverloaded \<longrightarrow> snd (limitReached c) = None"
    by (simp add: limitReached_result)
  show ?thesis
    using int_reading overload res none by simp
qed

theorem limitReached_overload_witness:
  "snd (limitReached overloadedClient) = Some ErrQueueOverloaded
   \<and> inProgressQueries (c_s (fst (limitReached overloadedClient))) = 21
   \<and> snd (Client_Exec overloadedClient background ''UPDATE t SET a = 1'' [])
        = Returned (Inl ErrQueueOverloaded)
   \<and> c_r (fst (Client_Exec overloadedClient background ''UPDATE t SET a = 1'' []))
        = c_r overloadedClient
   \<and> c_db (fst (Client_Exec overloadedClient background ''UPDATE t SET a = 1'' []))
        = c_db overloadedClient
   \<and> snd (Begin_primary overloadedClient background None) = Returned (Inl ErrQueueOverloaded)
   \<and> c_r (fst (Begin_primary overloadedClient background None)) = c_r overloadedClient"
proof -
  have ov: "snd (limitReached overloadedClient) = Some ErrQueueOverloaded"
    by (simp add: limitReached_result overloadedClient_def exampleDB_def NewDefaultConfig_def
        newStats_def)
  have cnt: "inProgressQueries (c_s overloadedClient) + 1 = 21"
    by (simp add: overloadedClient_def newStats_def)
  have ctx: "ctx_tx background = None"
    by (simp add: background_def)
  show ?thesis
    using limitReached_overload [of overloadedClient background "''UPDATE t SET a = 1''" "[]" None]
      ov cnt ctx
    by simp
qed


section \<open>The paths through Exec, Query and MultiQuery\<close>

lemma Exec_blocked:
  "snd (limitReached c) = None \<Longrightarrow> relay_start (c_r c) = None \<Longrightarrow>
   Client_Exec c ctx query args = (fst (limitReached c), Blocked)"
  using limitReached_sel(4) [of c] by (cases "limitReached c") (simp add: Client_Exec_def)

lemma Exec_admitted:
  assumes "snd (limitReached c) = None" and "relay_start (c_r c) = Some rl"
    and "retryLoop (\<lambda>d. ExecContext d query args) (RetryOnDeadlockDelay (c_config c))
           (sint (attemptLimit (c_config c))) (c_db c, None, None) = (d, result, err)"
  shows "Client_Exec c ctx query args =
     (call_deferred err (with_r (relay_end rl)
        (with_s (stats_sample (c_s (fst (limitReached c))) \<lparr>Query = query\<rparr>)
          (with_db d (with_r rl (fst (limitReached c)))))),
      execResult result err)"
proof (cases "limitReached c")
  case (Pair c1 e)
  then have c1: "c1 = fst (limitReached c)" and e: "e = None"
    using assms(1) by simp_all
  have sel: "c_r c1 = c_r c" "c_config c1 = c_config c" "c_db c1 = c_db c"
    by (simp_all add: c1)
  show ?thesis
    using assms(2,3)
    by (simp add: Client_Exec_def Pair e sel Let_def c1 [symmetric])
qed

lemma Query_primary_blocked:
  "snd (limitReached c) = None \<Longrightarrow> relay_start (c_r c) = None \<Longrightarrow>
   Query_primary c ctx query args = (fst (limitReached c), Blocked)"
  using limitReached_sel(4) [of c] by (cases "limitReached c") (simp add: Query_primary_def)

lemma Query_primary_admitted:
  assumes "snd (limitReached c) = None" and "relay_start (c_r c) = Some rl"
    and "retryLoop (\<lambda>d. QueryContext d query args) (RetryOnDeadlockDelay (c_config c))
           (sint (attemptLimit (c_config c)))
           (syncWait ctx ''SET SESSION wsrep_sync_wait=1'' (c_db c), None, None) = (d, rows, err)"
  shows "Query_primary c ctx query args =
     (call_deferred (snd (queryResult rows err)) (with_r (relay_end rl)
        (with_s (stats_sample (c_s (fst (limitReached c))) \<lparr>Query = query\<rparr>)
          (with_db (syncWait ctx ''SET SESSION wsrep_sync_wait=0'' d)
             (with_r rl (fst (limitReached c)))))),
      fst (queryResult rows err))"
proof (cases "limitReached c")
  case (Pair c1 e)
  then have c1: "c1 = fst (limitReached c)" and e: "e = None"
    using assms(1) by simp_all
  have sel: "c_r c1 = c_r c" "c_config c1 = c_config c" "c_db c1 = c_db c"
    by (simp_all add: c1)
  show ?thesis
    using assms(2,3)
    by (simp add: Query_primary_def Pair e sel Let_def c1 [symmetric] split: prod.splits)
qed

lemma MultiQuery_blocked:
  "snd (limitReached c) = None \<Longrightarrow> relay_start (c_r c) = None \<Longrightarrow>
   Client_MultiQuery c ctx query args = (fst (limitReached c), Blocked)"
  using limitReached_sel(4) [of c] by (cases "limitReached c") (simp add: Client_MultiQuery_def)

lemma MultiQuery_admitted:
  assumes "snd (limitReached c) = None" and "relay_start (c_r c) = Some rl"
    and "retryLoop (\<lambda>d. QueryContext d query args) (RetryOnDeadlockDelay (c_config c))
           (sint (attemptLimit (c_config c))) (c_db c, None, None) = (d, rows, err)"
  shows "Client_MultiQuery c ctx query args =
     (call_deferred err (with_r (relay_end rl)
        (with_s (stats_sample (c_s (fst (limitReached c))) \<lparr>Query = query\<rparr>)
          (with_db d (with_r rl (fst (limitReached c)))))),
      multiResult rows err)"
proof (cases "limitReached c")
  case (Pair c1 e)
  then have c1: "c1 = fst (limitReached c)" and e: "e = None"
    using assms(1) by simp_all
  have sel: "c_r c1 = c_r c" "c_config c1 = c_config c" "c_db c1 = c_db c"
    by (simp_all add: c1)
  show ?thesis
    using assms(2,3)
    by (simp add: Client_MultiQuery_def Pair e sel Let_def c1 [symmetric])
qed

lemma execResult_not_Blocked [simp]: "execResult result err \<noteq> Blocked"
  by (simp add: execResult_def split: option.splits)

lemma queryResult_not_Blocked [simp]: "fst (queryResult rows err) \<noteq> Blocked"
  by (simp add: queryResult_def split: option.splits sum.splits)

lemma multiResult_not_Blocked [simp]: "multiResult rows err \<noteq> Blocked"
  by (simp add: multiResult_def split: option.splits sum.splits)

lemma limitReached_result_cases:
  "snd (limitReached c) = None \<or> snd (limitReached c) = Some ErrQueueOverloaded"
  by (simp add: limitReached_result)

section \<open>Balance of the in-progress counter\<close>

lemma Exec_counter:
  "inProgressQueries (c_s (fst (Client_Exec c ctx query args))) =
     (if snd (Client_Exec c ctx query args) = Blocked then inProgressQueries (c_s c) + 1
      else inProgressQueries (c_s c))"
proof (cases "snd (limitReached c)")
  case (Some e)
  then show ?thesis by (simp add: Exec_overloaded)
next
  case None
  show ?thesis
  proof (cases "relay_start (c_r c)")
    case None
    with \<open>snd (limitReached c) = None\<close> show ?thesis by (simp add: Exec_blocked)
  next
    case (Some rl)
    obtain d result err where "retryLoop (\<lambda>d. ExecContext d query args)
        (RetryOnDeadlockDelay (c_config c)) (sint (attemptLimit (c_config c)))
        (c_db c, None, None) = (d, result, err)"
      by (metis prod_cases3)
    from Exec_admitted [OF None Some this] show ?thesis
      by (simp add: stats_sample_counters)
  qed
qed

lemma Exec_replica: "c_replica (fst (Client_Exec c ctx query args)) = c_replica c"
proof (cases "snd (limitReached c)")
  case (Some e)
  then show ?thesis by (simp add: Exec_overloaded)
next
  case None
  show ?thesis
  proof (cases "relay_start (c_r c)")
    case None
    with \<open>snd (limitReached c) = None\<close> show ?thesis by (simp add: Exec_blocked)
  next
    case (Some rl)
    obtain d result err where "retryLoop (\<lambda>d. ExecContext d query args)
        (RetryOnDeadlockDelay (c_config c)) (sint (attemptLimit (c_config c)))
        (c_db c, None, None) = (d, result, err)"
      by (metis prod_cases3)
    from Exec_admitted [OF None Some this] show ?thesis
      by simp
  qed
qed

lemma Query_primary_counter:
  "inProgressQueries (c_s (fst (Query_primary c ctx query args))) =
     (if snd (Query_primary c ctx query args) = Blocked then inProgressQueries (c_s c) + 1
      else inProgressQueries (c_s c))"
proof (cases "snd (limitReached c)")
  case (Some e)
  then show ?thesis by (simp add: Query_primary_overloaded)
next
  case None
  show ?thesis
  proof (cases "relay_start (c_r c)")
    case None
    with \<open>snd (limitReached c) = None\<close> show ?thesis by (simp add: Query_primary_blocked)
  next
    case (Some rl)
    obtain d rows err where "retryLoop (\<lambda>d. QueryContext d query args)
        (RetryOnDeadlockDelay (c_config c)) (sint (attemptLimit (c_config c)))
        (syncWait ctx ''SET SESSION wsrep_sync_wait=1'' (c_db c), None, None) = (d, rows, err)"
      by (metis prod_cases3)
    from Query_primary_admitted [OF None Some this] show ?thesis
      by (simp add: stats_sample_counters)
  qed
qed

lemma Query_primary_replica: "c_replica (fst (Query_primary c ctx query args)) = c_replica c"
proof (cases "snd (limitReached c)")
  case (Some e)
  then show ?thesis by (simp add: Query_primary_overloaded)
next
  case None
  show ?thesis
  proof (cases "relay_start (c_r c)")
    case None
    with \<open>snd (limitReached c) = None\<close> show ?thesis by (simp add: Query_primary_blocked)
  next
    case (Some rl)
    obtain d rows err where "retryLoop (\<lambda>d. QueryContext d query args)
        (RetryOnDeadlockDelay (c_config c)) (sint (attemptLimit (c_config c)))
        (syncWait ctx ''SET SESSION wsrep_sync_wait=1'' (c_db c), None, None) = (d, rows, err)"
      by (metis prod_cases3)
    from Query_primary_admitted [OF None Some this] show ?thesis
      by simp
  qed
qed

lemma MultiQuery_counter:
  "inProgressQueries (c_s (fst (Client_MultiQuery c ctx query args))) =
     (if snd (Client_MultiQuery c ctx query args) = Blocked then inProgressQueries (c_s c) + 1
      else inProgressQueries (c_s c))"
proof (cases "snd (limitReached c)")
  case (Some e)
  then show ?thesis by (simp add: MultiQuery_overloaded)
next
  case None
  show ?thesis
  proof (cases "relay_start (c_r c)")
    case None
    with \<open>snd (limitReached c) = None\<close> show ?thesis by (simp add: MultiQuery_blocked)
  next
    case (Some rl)
    obtain d rows err where "retryLoop (\<lambda>d. QueryContext d query args)
        (RetryOnDeadlockDelay (c_config c)) (sint (attemptLimit (c_config c)))
        (c_db c, None, None) = (d, rows, err)"
      by (metis prod_cases3)
    from MultiQuery_admitted [OF None Some this] show ?thesis
      by (simp add: stats_sample_counters)
  qed
qed

lemma MultiQuery_replica: "c_replica (fst (Client_MultiQuery c ctx query args)) = c_replica c"
proof (cases "snd (limitReached c)")
  case (Some e)
  then show ?thesis by (simp add: MultiQuery_overloaded)
next
  case None
  show ?thesis
  proof (cases "relay_start (c_r c)")
    case None
    with \<open>snd (limitReached c) = None\<close> show ?thesis by (simp add: MultiQuery_blocked)
  next
    case (Some rl)
    obtain d rows err where "retryLoop (\<lambda>d. QueryContext d query args)
        (RetryOnDeadlockDelay (c_config c)) (sint (attemptLimit (c_config c)))
        (c_db c, None, None) = (d, rows, err)"
      by (metis prod_cases3)
    from MultiQuery_admitted [OF None Some this] show ?thesis
      by simp
  qed
qed

lemma inProgressAll_eq:
  "inProgressQueries (c_s c') = inProgressQueries (c_s c) \<Longrightarrow> c_replica c' = c_replica c \<Longrightarrow>
   inProgressAll c' = inProgressAll c"
  by (cases c; cases c'; cases "c_replica c") simp_all

lemma Query_counters:
  "snd (Client_Query c ctx query args) \<noteq> Blocked \<Longrightarrow>
   inProgressAll (fst (Client_Query c ctx query args)) = inProgressAll c"
proof (induction c ctx query args rule: Client_Query.induct)
  case (1 db replica config s r ctx query args)
  then show ?case by (simp split: prod.splits)
next
  case (2 db config s r ctx query args)
  let ?c = "Client db None config s r"
  have "inProgressAll (fst (Query_primary ?c ctx query args)) = inProgressAll ?c"
  proof (rule inProgressAll_eq)
    show "inProgressQueries (c_s (fst (Query_primary ?c ctx query args))) = inProgressQueries (c_s ?c)"
      using 2 Query_primary_counter [of ?c ctx query args] by simp
    show "c_replica (fst (Query_primary ?c ctx query args)) = c_replica ?c"
      by (rule Query_primary_replica)
  qed
  then show ?case by simp
qed


lemma Exec_Blocked_iff:
  "snd (Client_Exec c ctx query args) = Blocked \<longleftrightarrow>
     snd (limitReached c) = None \<and> relay_start (c_r c) = None"
proof (cases "snd (limitReached c)")
  case (Some e)
  then show ?thesis by (simp add: Exec_overloaded)
next
  case None
  show ?thesis
  proof (cases "relay_start (c_r c)")
    case None
    with \<open>snd (limitReached c) = None\<close> show ?thesis by (simp add: Exec_blocked)
  next
    case (Some rl)
    obtain d result err where "retryLoop (\<lambda>d. ExecContext d query args)
        (RetryOnDeadlockDelay (c_config c)) (sint (attemptLimit (c_config c)))
        (c_db c, None, None) = (d, result, err)"
      by (metis prod_cases3)
    from Exec_admitted [OF None Some this] Some show ?thesis
      by simp
  qed
qed

lemma MultiQuery_Blocked_iff:
  "snd (Client_MultiQuery c ctx query args) = Blocked \<longleftrightarrow>
     snd (limitReached c) = None \<and> relay_start (c_r c) = None"
proof (cases "snd (limitReached c)")
  case (Some e)
  then show ?thesis by (simp add: MultiQuery_overloaded)
next
  case None
  show ?thesis
  proof (cases "relay_start (c_r c)")
    case None
    with \<open>snd (limitReached c) = None\<close> show ?thesis by (simp add: MultiQuery_blocked)
  next
    case (Some rl)
    obtain d rows err where "retryLoop (\<lambda>d. QueryContext d query args)
        (RetryOnDeadlockDelay (c_config c)) (sint (attemptLimit (c_config c)))
        (c_db c, None, None) = (d, rows, err)"
      by (metis prod_cases3)
    from MultiQuery_admitted [OF None Some this] Some show ?thesis
      by simp
  qed
qed

lemma Query_primary_Blocked_iff:
  "snd (Query_primary c ctx query args) = Blocked \<longleftrightarrow>
     snd (limitReached c) = None \<and> relay_start (c_r c) = None"
proof (cases "snd (limitReached c)")
  case (Some e)
  then show ?thesis by (simp add: Query_primary_overloaded)
next
  case None
  show ?thesis
  proof (cases "relay_start (c_r c)")
    case None
    with \<open>snd (limitReached c) = None\<close> show ?thesis by (simp add: Query_primary_blocked)
  next
    case (Some rl)
    obtain d rows err where "retryLoop (\<lambda>d. QueryContext d query args)
        (RetryOnDeadlockDelay (c_config c)) (sint (attemptLimit (c_config c)))
        (syncWait ctx ''SET SESSION wsrep_sync_wait=1'' (c_db c), None, None) = (d, rows, err)"
      by (metis prod_cases3)
    from Query_primary_admitted [OF None Some this] Some show ?thesis
      by simp
  qed
qed

lemma Client_Query_no_replica:
  "c_replica c = None \<Longrightarrow> Client_Query c ctx query args = Query_primary c ctx query args"
  by (cases c) simp

lemma relay_start_None_iff:
  "relay_start t = None \<longleftrightarrow> capacity (relayChan t) \<le> length (buffer (relayChan t))"
  by (auto simp: relay_start_def send_def)

text \<open>
  Claim C5. Whenever \<open>Exec\<close>, \<open>Query\<close> or \<open>MultiQuery\<close> comes back (with a result, an
  error, the overload error, or a panic), the in-progress counter of the client, and of
  every replica behind it, is what it was before the call: the increment of
  \<open>limitReached\<close> is undone by one decrement. \<open>Exec\<close> and \<open>MultiQuery\<close> fail to come
  back only while they wait for a ticket of a full relay.
\<close>

theorem inProgress_counter_balanced:
  "(snd (Client_Exec c ctx query args) \<noteq> Blocked \<longrightarrow>
      inProgressQueries (c_s (fst (Client_Exec c ctx query args)))
        = inProgressQueries (c_s (fst (limitReached c))) - 1
    \<and> inProgressAll (fst (Client_Exec c ctx query args)) = inProgressAll c)
   \<and> (snd (Client_Query c ctx query args) \<noteq> Blocked \<longrightarrow>
      inProgressAll (fst (Client_Query c ctx query args)) = inProgressAll c)
   \<and> (snd (Client_MultiQuery c ctx query args) \<noteq> Blocked \<longrightarrow>
      inProgressQueries (c_s (fst (Client_MultiQuery c ctx query args)))
        = inProgressQueries (c_s (fst (limitReached c))) - 1
    \<and> inProgressAll (fst (Client_MultiQuery c ctx query args)) = inProgressAll c)
   \<and> (snd (Client_Exec c ctx query args) = Blocked \<longleftrightarrow>
        snd (limitReached c) = None
      \<and> capacity (relayChan (c_r c)) \<le> length (buffer (relayChan (c_r c))))
   \<and> (snd (Client_MultiQuery c ctx query args) = Blocked \<longleftrightarrow>
        snd (limitReached c) = None
      \<and> capacity (relayChan (c_r c)) \<le> length (buffer (relayChan (c_r c))))"
proof -
  have e: "inProgressQueries (c_s (fst (Client_Exec c ctx query args))) = inProgressQueries (c_s c)"
    if "snd (Client_Exec c ctx query args) \<noteq> Blocked"
    using that Exec_counter [of c ctx query args] by simp
  have ea: "inProgressAll (fst (Client_Exec c ctx query args)) = inProgressAll c"
    if "snd (Client_Exec c ctx query args) \<noteq> Blocked"
    using e [OF that] Exec_replica by (rule inProgressAll_eq)
  have m: "inProgressQueries (c_s (fst (Client_MultiQuery c ctx query args))) = inProgressQueries (c_s c)"
    if "snd (Client_MultiQuery c ctx query args) \<noteq> Blocked"
    using that MultiQuery_counter [of c ctx query args] by simp
  have ma: "inProgressAll (fst (Client_MultiQuery c ctx query args)) = inProgressAll c"
    if "snd (Client_MultiQuery c ctx query args) \<noteq> Blocked"
    using m [OF that] MultiQuery_replica by (rule inProgressAll_eq)
  show ?thesis
    using e ea m ma Query_counters [of c ctx query args]
    by (simp add: Exec_Blocked_iff MultiQuery_Blocked_iff relay_start_None_iff)
qed

lemma exampleClient_admits:
  "snd (limitReached (exampleClient rs)) = None"
  "relay_start (c_r (exampleClient rs)) = Some \<lparr>relayChan = \<lparr>capacity = 200, buffer = [True]\<rparr>\<rparr>"
  by (simp_all add: limitReached_result exampleClient_def exampleDB_def NewDefaultConfig_def
      newStats_def relay_start_def send_def setRelaySize_def make_chan_def)

theorem inProgress_counter_balanced_witness:
  "snd (Client_Exec (exampleClient (\<lambda>n. okReply)) background ''UPDATE t SET a = 1'' []) \<noteq> Blocked
   \<and> inProgressQueries (c_s (fst (limitReached (exampleClient (\<lambda>n. okReply))))) = 1
   \<and> inProgressQueries (c_s (fst
        (Client_Exec (exampleClient (\<lambda>n. okReply)) background ''UPDATE t SET a = 1'' []))) = 0
   \<and> snd (Client_Query (exampleClient (\<lambda>n. okReply)) background ''SELECT 1'' []) \<noteq> Blocked
   \<and> inProgressAll (fst (Client_Query (exampleClient (\<lambda>n. okReply)) background ''SELECT 1'' [])) = [0]
   \<and> snd (Client_MultiQuery overloadedClient background ''SELECT 1; SELECT 2'' [])
        = Returned (Inl ErrQueueOverloaded)
   \<and> inProgressAll (fst (Client_MultiQuery overloadedClient background ''SELECT 1; SELECT 2'' [])) = [20]"
proof -
  let ?c = "exampleClient (\<lambda>n. okReply)"
  have nb: "snd (Client_Exec ?c background ''UPDATE t SET a = 1'' []) \<noteq> Blocked"
    by (simp add: Exec_Blocked_iff exampleClient_admits)
  have lim: "inProgressQueries (c_s (fst (limitReached ?c))) = 1"
    by (simp add: exampleClient_def newStats_def)
  have "c_replica ?c = None"
    by (simp add: exampleClient_def)
  then have nbq: "snd (Client_Query ?c background ''SELECT 1'' []) \<noteq> Blocked"
    by (simp add: Client_Query_no_replica Query_primary_Blocked_iff exampleClient_admits)
  have all0: "inProgressAll ?c = [0]"
    by (simp add: exampleClient_def newStats_def)
  have ov: "snd (limitReached overloadedClient) = Some ErrQueueOverloaded"
    by (simp add: limitReached_result overloadedClient_def exampleDB_def NewDefaultConfig_def
        newStats_def)
  then have mq: "snd (Client_MultiQuery overloadedClient background ''SELECT 1; SELECT 2'' [])
      = Returned (Inl ErrQueueOverloaded)"
    by (simp add: MultiQuery_overloaded)
  have all20: "inProgressAll overloadedClient = [20]"
    by (simp add: overloadedClient_def newStats_def)
  from inProgress_counter_balanced [of ?c background "''UPDATE t SET a = 1''" "[]"] nb lim
  have "inProgressQueries (c_s (fst (Client_Exec ?c background ''UPDATE t SET a = 1'' []))) = 0"
    by simp
  moreover from inProgress_counter_balanced [of ?c background "''SELECT 1''" "[]"] nbq all0
  have "inProgressAll (fst (Client_Query ?c background ''SELECT 1'' [])) = [0]"
    by simp
  moreover from inProgress_counter_balanced [of overloadedClient background "''SELECT 1; SELECT 2''" "[]"]
    mq all20
  have "inProgressAll (fst (Client_MultiQuery overloadedClient background ''SELECT 1; SELECT 2'' [])) = [20]"
    by simp
  ultimately show ?thesis
    using nb lim nbq mq by simp
qed


section \<open>Replica routing\<close>

lemma Query_redirected:
  "Client_Query (Client db (Some replica) config s r) ctx query args =
     (Client db (Some (fst (Client_Query replica ctx query args))) config s r,
      snd (Client_Query replica ctx query args))"
  by (simp split: prod.splits)

lemma Call_redirected:
  "Client_Call (Client db (Some replica) config s r) ctx procedure args =
     (Client db (Some (fst (Client_Call replica ctx procedure args))) config s r,
      snd (Client_Call replica ctx procedure args))"
  by (simp add: Client_Call_def split: prod.splits)

lemma MultiCall_replica: "c_replica (fst (Client_MultiCall c ctx procedure args)) = c_replica c"
  by (simp add: Client_MultiCall_def MultiQuery_replica)

text \<open>
  Claim C8. \<open>MultiQuery\<close> on a primary with a replica attached: the statement is sent
  to the primary's own pool (one call in its log, its success counter goes up), and the
  replica is as it was, with no call in its log.
\<close>

theorem MultiQuery_runs_on_primary:
  "db_log (c_db (fst (Client_MultiQuery
       (SetReplica (exampleClient (\<lambda>n. okReply)) (exampleClient (\<lambda>n. okReply)))
       background ''SELECT 1; SELECT 2'' [])))
     = [EvQuery ''SELECT 1; SELECT 2'' []]
   \<and> totalSuccessQueries (c_s (fst (Client_MultiQuery
       (SetReplica (exampleClient (\<lambda>n. okReply)) (exampleClient (\<lambda>n. okReply)))
       background ''SELECT 1; SELECT 2'' []))) = 1
   \<and> c_replica (fst (Client_MultiQuery
       (SetReplica (exampleClient (\<lambda>n. okReply)) (exampleClient (\<lambda>n. okReply)))
       background ''SELECT 1; SELECT 2'' []))
     = Some (exampleClient (\<lambda>n. okReply))
   \<and> db_log (c_db (exampleClient (\<lambda>n. okReply))) = []"
proof -
  let ?c = "SetReplica (exampleClient (\<lambda>n. okReply)) (exampleClient (\<lambda>n. okReply))"
  have lim: "snd (limitReached ?c) = None"
    by (simp add: limitReached_result SetReplica_def exampleClient_def exampleDB_def
        NewDefaultConfig_def newStats_def)
  have st: "relay_start (c_r ?c) = Some \<lparr>relayChan = \<lparr>capacity = 200, buffer = [True]\<rparr>\<rparr>"
    by (simp add: SetReplica_def exampleClient_admits)
  have loop: "retryLoop (\<lambda>d. QueryContext d ''SELECT 1; SELECT 2'' [])
      (RetryOnDeadlockDelay (c_config ?c)) (sint (attemptLimit (c_config ?c))) (c_db ?c, None, None)
    = (\<lparr>replies = (\<lambda>n. okReply), ncalls = 1, db_log = [EvQuery ''SELECT 1; SELECT 2'' []],
        MaxOpenConnections = 20\<rparr>, Some (r_rows okReply), None)"
    by (simp add: SetReplica_def exampleClient_def exampleDB_def NewDefaultConfig_def
        attemptLimit_def QueryContext_def DB_call_def okReply_def IsErrorCode_def
        retryLoop.simps)
  show ?thesis
    by (simp add: MultiQuery_admitted [OF lim st loop] MultiQuery_replica)
      (simp add: SetReplica_def exampleClient_def exampleDB_def newStats_def call_deferred_def
        limitReached_def Let_def
        countResult_def stats_sample_def send_def make_chan_def)
qed


section \<open>The retry loop\<close>


lemma retriedLog_0 [simp]: "retriedLog ev delay 0 = []"
  by (simp add: retriedLog_def)











lemma attemptLimit_no_retry: "\<not> RetryOnDeadlock config \<Longrightarrow> sint (attemptLimit config) = 1"
  by (simp add: attemptLimit_def)



lemma syncWait_sel [simp]:
  "replies (syncWait ctx statement d) = replies d"
  "ncalls (syncWait ctx statement d) = ncalls d + syncCalls ctx"
  "db_log (syncWait ctx statement d) = db_log d @ syncLog ctx statement"
  "MaxOpenConnections (syncWait ctx statement d) = MaxOpenConnections d"
  by (simp_all add: syncWait_def syncCalls_def syncLog_def ExecContext_def DB_call_def)







section \<open>Transactions: the fan-out to the observers\<close>

lemma fanout_length:
  "length (fold (\<lambda>c chans. chans[c := trySend (chans ! c) v]) cs chans) = length chans"
  by (induction cs arbitrary: chans) simp_all

lemma fanout_other:
  "c \<notin> set cs \<Longrightarrow> fold (\<lambda>c chans. chans[c := trySend (chans ! c) v]) cs chans ! c = chans ! c"
  by (induction cs arbitrary: chans) auto

lemma fanout_member:
  "distinct cs \<Longrightarrow> c \<in> set cs \<Longrightarrow> c < length chans \<Longrightarrow>
   fold (\<lambda>c chans. chans[c := trySend (chans ! c) v]) cs chans ! c = trySend (chans ! c) v"
proof (induction cs arbitrary: chans)
  case Nil
  then show ?case by simp
next
  case (Cons a cs)
  show ?case
  proof (cases "c = a")
    case True
    then have "c \<notin> set cs" using Cons.prems(1) by simp
    then show ?thesis using True Cons.prems(3) by (simp add: fanout_other)
  next
    case False
    then have "c \<in> set cs" using Cons.prems(2) by simp
    moreover have "distinct cs" using Cons.prems(1) by simp
    moreover have "c < length (chans[a := trySend (chans ! a) v])" using Cons.prems(3) by simp
    ultimately show ?thesis using Cons.IH False by simp
  qed
qed

lemma close_sel [simp]:
  "e_s (Transaction_close t err env) = e_s env" "e_r (Transaction_close t err env) = e_r env"
  by (simp_all add: Transaction_close_def)

lemma tx_deferred_sel [simp]:
  "e_chans (tx_deferred err env) = e_chans env"
  "e_r (tx_deferred err env) = relay_end (e_r env)"
  "inProgressQueries (e_s (tx_deferred err env)) = inProgressQueries (e_s env) - 1"
  "sampleChan (e_s (tx_deferred err env)) = sampleChan (e_s env)"
  by (simp_all add: tx_deferred_def countResult_def Let_def)

lemma close_observer:
  "observersValid t env \<Longrightarrow> c \<in> set (t_done t) \<Longrightarrow>
   e_chans (Transaction_close t err env) ! c = trySend (e_chans env ! c) err"
  by (simp add: Transaction_close_def observersValid_def fanout_member)

lemma close_not_observer:
  "c \<notin> set (t_done t) \<Longrightarrow> e_chans (Transaction_close t err env) ! c = e_chans env ! c"
  by (simp add: Transaction_close_def fanout_other)

lemma Done_valid:
  "observersValid t env \<Longrightarrow>
   observersValid (fst (fst (Transaction_Done t env))) (snd (fst (Transaction_Done t env)))"
  by (auto simp: observersValid_def Transaction_Done_def Let_def less_Suc_eq)

lemma newTransaction_valid: "observersValid (newTransaction tx config) env"
  by (simp add: observersValid_def newTransaction_def)

lemma Rollback_owner:
  "ctx_tx ctx = None \<Longrightarrow>
   Transaction_Rollback t ctx env =
     ((t\<lparr>t_tx := fst (Tx_finish (t_tx t))\<rparr>,
       tx_deferred (snd (Tx_finish (t_tx t)))
         (Transaction_close (t\<lparr>t_tx := fst (Tx_finish (t_tx t))\<rparr>)
            (rollbackSignal (snd (Tx_finish (t_tx t))))
            (env\<lparr>e_s := stats_sample (e_s env) \<lparr>Query = ''ROLLBACK''\<rparr>\<rparr>))),
      snd (Tx_finish (t_tx t)))"
  by (simp add: Transaction_Rollback_def rollbackSignal_def Let_def split: prod.splits)

lemma Commit_owner:
  "ctx_tx ctx = None \<Longrightarrow>
   Transaction_Commit t ctx env =
     ((t\<lparr>t_tx := fst (Tx_finish (t_tx t))\<rparr>,
       tx_deferred (snd (Tx_finish (t_tx t)))
         (Transaction_close (t\<lparr>t_tx := fst (Tx_finish (t_tx t))\<rparr>)
            (snd (Tx_finish (t_tx t)))
            (env\<lparr>e_s := stats_sample (e_s env) \<lparr>Query = ''COMMIT''\<rparr>\<rparr>))),
      snd (Tx_finish (t_tx t)))"
  by (simp add: Transaction_Commit_def Let_def split: prod.splits)

lemma Tx_finish_sel [simp]:
  "snd (Tx_finish tx) = tx_replies tx (tx_ncalls tx)"
  "tx_ncalls (fst (Tx_finish tx)) = Suc (tx_ncalls tx)"
  "tx_id (fst (Tx_finish tx)) = tx_id tx"
  by (simp_all add: Tx_finish_def)

text \<open>
  Claim C6. \<open>Rollback\<close> by the owner (no transaction in the context) runs the driver's
  rollback and then offers one value to every registered observer's channel by a send
  with a default branch: \<open>ErrRollback\<close> when the driver returned nil, the driver's error
  otherwise; the value is never nil. A channel with a reader waiting hands the value to
  the reader; a channel without one is skipped. Channels of other transactions are not
  touched, and \<open>Rollback\<close> itself returns the driver's result.
\<close>

theorem Rollback_fans_out_ErrRollback:
  assumes "ctx_tx ctx = None" and "observersValid t env"
  shows "snd (Transaction_Rollback t ctx env) = tx_replies (t_tx t) (tx_ncalls (t_tx t))
       \<and> (\<forall>c \<in> set (t_done t).
            e_chans (snd (fst (Transaction_Rollback t ctx env))) ! c
              = trySend (e_chans env ! c)
                  (case tx_replies (t_tx t) (tx_ncalls (t_tx t)) of
                     None \<Rightarrow> Some ErrRollback
                   | Some err \<Rightarrow> Some err)
          \<and> (0 < receivers (e_chans env ! c) \<longrightarrow>
               delivered (e_chans (snd (fst (Transaction_Rollback t ctx env))) ! c)
                 = delivered (e_chans env ! c)
                     @ [case tx_replies (t_tx t) (tx_ncalls (t_tx t)) of
                          None \<Rightarrow> Some ErrRollback
                        | Some err \<Rightarrow> Some err])
          \<and> (receivers (e_chans env ! c) = 0 \<longrightarrow>
               e_chans (snd (fst (Transaction_Rollback t ctx env))) ! c = e_chans env ! c))
       \<and> (\<forall>c. c \<notin> set (t_done t) \<longrightarrow>
            e_chans (snd (fst (Transaction_Rollback t ctx env))) ! c = e_chans env ! c)"
proof -
  let ?t1 = "t\<lparr>t_tx := fst (Tx_finish (t_tx t))\<rparr>"
  let ?env1 = "env\<lparr>e_s := stats_sample (e_s env) \<lparr>Query = ''ROLLBACK''\<rparr>\<rparr>"
  have v: "rollbackSignal (tx_replies (t_tx t) (tx_ncalls (t_tx t)))
      = (case tx_replies (t_tx t) (tx_ncalls (t_tx t)) of
           None \<Rightarrow> Some ErrRollback | Some err \<Rightarrow> Some err)"
    by (simp add: rollbackSignal_def split: option.splits)
  have valid: "observersValid ?t1 ?env1"
    using assms(2) by (simp add: observersValid_def)
  have member: "e_chans (snd (fst (Transaction_Rollback t ctx env))) ! c
      = trySend (e_chans env ! c)
          (case tx_replies (t_tx t) (tx_ncalls (t_tx t)) of
             None \<Rightarrow> Some ErrRollback | Some err \<Rightarrow> Some err)"
    if "c \<in> set (t_done t)" for c
    using that close_observer [OF valid, of c] by (simp add: Rollback_owner [OF assms(1)] v)
  have other: "e_chans (snd (fst (Transaction_Rollback t ctx env))) ! c = e_chans env ! c"
    if "c \<notin> set (t_done t)" for c
    using that close_not_observer [of c ?t1] by (simp add: Rollback_owner [OF assms(1)])
  have ret: "snd (Transaction_Rollback t ctx env) = tx_replies (t_tx t) (tx_ncalls (t_tx t))"
    by (simp add: Rollback_owner [OF assms(1)])
  show ?thesis
    using member other ret by (simp add: trySend_def)
qed


lemma observedTransaction_eval:
  "t_done (fst observedTransaction) = [0, 1]"
  "t_tx (fst observedTransaction) = exampleTx"
  "e_chans (snd observedTransaction)
     = [\<lparr>receivers = 1, delivered = []\<rparr>, \<lparr>receivers = 0, delivered = []\<rparr>]"
  by (simp_all add: observedTransaction_def exampleTransaction_def exampleEnv_def
      Transaction_Done_def newTransaction_def observerWaits_def make_syncchan_def
      awaitValue_def Let_def)

theorem Rollback_fans_out_ErrRollback_witness:
  "ctx_tx background = None
   \<and> observersValid (fst observedTransaction) (snd observedTransaction)
   \<and> t_done (fst observedTransaction) = [0, 1]
   \<and> snd (Transaction_Rollback (fst observedTransaction) background (snd observedTransaction)) = None
   \<and> e_chans (snd (fst (Transaction_Rollback (fst observedTransaction) background
          (snd observedTransaction)))) ! 0
       = \<lparr>receivers = 0, delivered = [Some ErrRollback]\<rparr>
   \<and> e_chans (snd (fst (Transaction_Rollback (fst observedTransaction) background
          (snd observedTransaction)))) ! 1
       = \<lparr>receivers = 0, delivered = []\<rparr>"
proof -
  have ctx: "ctx_tx background = None"
    by (simp add: background_def)
  have valid: "observersValid (fst observedTransaction) (snd observedTransaction)"
    by (simp add: observersValid_def observedTransaction_eval)
  show ?thesis
    using Rollback_fans_out_ErrRollback [OF ctx valid] ctx valid
    by (simp add: observedTransaction_eval trySend_def exampleTx_def)
qed

section \<open>Transactions: who may commit or roll back\<close>

lemma Commit_inherited:
  "ctx_tx ctx = Some other \<Longrightarrow> Transaction_Commit t ctx env = ((t, env), None)"
  by (simp add: Transaction_Commit_def)

lemma Rollback_inherited:
  "ctx_tx ctx = Some other \<Longrightarrow> Transaction_Rollback t ctx env = ((t, env), None)"
  by (simp add: Transaction_Rollback_def)

text \<open>
  Claim C1, as the code has it. \<open>Commit\<close> and \<open>Rollback\<close> skip (return nil and leave the
  transaction, the driver, the relay, the counters and the observers as they are)
  whenever the context carries a transaction handle, whichever it is. When the context
  carries none they perform the terminal transition: the driver's commit or rollback is
  called and its result returned, the ticket is released, the in-progress counter goes
  down by one and the observers are notified.
\<close>

theorem Commit_Rollback_skip_iff_context_has_tx:
  "(ctx_tx ctx \<noteq> None \<longrightarrow>
      Transaction_Commit t ctx env = ((t, env), None)
    \<and> Transaction_Rollback t ctx env = ((t, env), None))
   \<and> (ctx_tx ctx = None \<longrightarrow>
      snd (Transaction_Commit t ctx env) = tx_replies (t_tx t) (tx_ncalls (t_tx t))
    \<and> tx_ncalls (t_tx (fst (fst (Transaction_Commit t ctx env)))) = Suc (tx_ncalls (t_tx t))
    \<and> e_r (snd (fst (Transaction_Commit t ctx env))) = relay_end (e_r env)
    \<and> inProgressQueries (e_s (snd (fst (Transaction_Commit t ctx env))))
         = inProgressQueries (e_s env) - 1
    \<and> e_chans (snd (fst (Transaction_Commit t ctx env)))
         = e_chans (Transaction_close t (tx_replies (t_tx t) (tx_ncalls (t_tx t))) env)
    \<and> snd (Transaction_Rollback t ctx env) = tx_replies (t_tx t) (tx_ncalls (t_tx t))
    \<and> tx_ncalls (t_tx (fst (fst (Transaction_Rollback t ctx env)))) = Suc (tx_ncalls (t_tx t))
    \<and> e_r (snd (fst (Transaction_Rollback t ctx env))) = relay_end (e_r env)
    \<and> inProgressQueries (e_s (snd (fst (Transaction_Rollback t ctx env))))
         = inProgressQueries (e_s env) - 1
    \<and> e_chans (snd (fst (Transaction_Rollback t ctx env)))
         = e_chans (Transaction_close t
             (rollbackSignal (tx_replies (t_tx t) (tx_ncalls (t_tx t)))) env))"
proof (intro conjI impI)
  assume "ctx_tx ctx \<noteq> None"
  then obtain other where o: "ctx_tx ctx = Some other" by blast
  show "Transaction_Commit t ctx env = ((t, env), None)"
    using o by (rule Commit_inherited)
  show "Transaction_Rollback t ctx env = ((t, env), None)"
    using o by (rule Rollback_inherited)
next
  assume n: "ctx_tx ctx = None"
  show "snd (Transaction_Commit t ctx env) = tx_replies (t_tx t) (tx_ncalls (t_tx t))"
    by (simp add: Commit_owner [OF n])
  show "tx_ncalls (t_tx (fst (fst (Transaction_Commit t ctx env)))) = Suc (tx_ncalls (t_tx t))"
    by (simp add: Commit_owner [OF n])
  show "e_r (snd (fst (Transaction_Commit t ctx env))) = relay_end (e_r env)"
    by (simp add: Commit_owner [OF n])
  show "inProgressQueries (e_s (snd (fst (Transaction_Commit t ctx env))))
      = inProgressQueries (e_s env) - 1"
    by (simp add: Commit_owner [OF n] stats_sample_counters)
  show "e_chans (snd (fst (Transaction_Commit t ctx env)))
      = e_chans (Transaction_close t (tx_replies (t_tx t) (tx_ncalls (t_tx t))) env)"
    by (simp add: Commit_owner [OF n]) (simp add: Transaction_close_def)
  show "snd (Transaction_Rollback t ctx env) = tx_replies (t_tx t) (tx_ncalls (t_tx t))"
    by (simp add: Rollback_owner [OF n])
  show "tx_ncalls (t_tx (fst (fst (Transaction_Rollback t ctx env)))) = Suc (tx_ncalls (t_tx t))"
    by (simp add: Rollback_owner [OF n])
  show "e_r (snd (fst (Transaction_Rollback t ctx env))) = relay_end (e_r env)"
    by (simp add: Rollback_owner [OF n])
  show "inProgressQueries (e_s (snd (fst (Transaction_Rollback t ctx env))))
      = inProgressQueries (e_s env) - 1"
    by (simp add: Rollback_owner [OF n] stats_sample_counters)
  show "e_chans (snd (fst (Transaction_Rollback t ctx env)))
      = e_chans (Transaction_close t
          (rollbackSignal (tx_replies (t_tx t) (tx_ncalls (t_tx t)))) env)"
    by (simp add: Rollback_owner [OF n]) (simp add: Transaction_close_def)
qed

theorem Commit_Rollback_skip_iff_context_has_tx_witness:
  "ctx_tx (WithContext exampleTransaction background) \<noteq> None
   \<and> Transaction_Rollback exampleTransaction (WithContext exampleTransaction background) exampleEnv
       = ((exampleTransaction, exampleEnv), None)
   \<and> ctx_tx background = None
   \<and> snd (Transaction_Commit exampleTransaction background exampleEnv) = None
   \<and> tx_ncalls (t_tx (fst (fst (Transaction_Commit exampleTransaction background exampleEnv)))) = 1
   \<and> e_r (snd (fst (Transaction_Commit exampleTransaction background exampleEnv)))
       = \<lparr>relayChan = \<lparr>capacity = 200, buffer = []\<rparr>\<rparr>
   \<and> inProgressQueries (e_s (snd (fst (Transaction_Commit exampleTransaction background exampleEnv)))) = 0"
proof -
  have c1: "ctx_tx (WithContext exampleTransaction background) \<noteq> None"
    by (simp add: WithContext_def)
  have c2: "ctx_tx background = None"
    by (simp add: background_def)
  have ex: "tx_replies (t_tx exampleTransaction) 0 = None"
    "tx_ncalls (t_tx exampleTransaction) = 0"
    "relay_end (e_r exampleEnv) = \<lparr>relayChan = \<lparr>capacity = 200, buffer = []\<rparr>\<rparr>"
    "inProgressQueries (e_s exampleEnv) = 1"
    by (simp_all add: exampleTransaction_def newTransaction_def exampleTx_def exampleEnv_def
        relay_end_def receive_def)
  from Commit_Rollback_skip_iff_context_has_tx
      [of "WithContext exampleTransaction background" exampleTransaction exampleEnv] c1
  have skip: "Transaction_Rollback exampleTransaction (WithContext exampleTransaction background)
      exampleEnv = ((exampleTransaction, exampleEnv), None)"
    by blast
  from Commit_Rollback_skip_iff_context_has_tx [of background exampleTransaction exampleEnv] c2
  have "snd (Transaction_Commit exampleTransaction background exampleEnv) = None
    \<and> tx_ncalls (t_tx (fst (fst (Transaction_Commit exampleTransaction background exampleEnv)))) = 1
    \<and> e_r (snd (fst (Transaction_Commit exampleTransaction background exampleEnv)))
       = \<lparr>relayChan = \<lparr>capacity = 200, buffer = []\<rparr>\<rparr>
    \<and> inProgressQueries (e_s (snd (fst (Transaction_Commit exampleTransaction background exampleEnv)))) = 0"
    by (simp add: ex)
  with c1 c2 skip show ?thesis by simp
qed

text \<open>
  Claim C1 as stated fails when the context carries the transaction itself: the owner's
  \<open>Commit\<close> is then skipped, the driver is not called and the ticket stays in the relay.
\<close>

theorem Commit_skipped_for_owner_in_context:
  "ctx_tx (WithContext exampleTransaction background) = Some exampleTransaction
   \<and> Transaction_Commit exampleTransaction (WithContext exampleTransaction background) exampleEnv
       = ((exampleTransaction, exampleEnv), None)
   \<and> tx_ncalls (t_tx (fst (fst (Transaction_Commit exampleTransaction
          (WithContext exampleTransaction background) exampleEnv)))) = 0
   \<and> buffer (relayChan (e_r (snd (fst (Transaction_Commit exampleTransaction
          (WithContext exampleTransaction background) exampleEnv))))) = [True]"
  by (simp add: WithContext_def Transaction_Commit_def exampleTransaction_def newTransaction_def
      exampleTx_def exampleEnv_def)

section \<open>Transactions: an observer registered after the end\<close>

lemma Done_result:
  "Transaction_Done t env =
     ((t\<lparr>t_done := t_done t @ [length (e_chans env)]\<rparr>,
       env\<lparr>e_chans := e_chans env @ [make_syncchan]\<rparr>), length (e_chans env))"
  by (simp add: Transaction_Done_def Let_def)

lemma Done_appends_fresh_channel:
  "snd (Transaction_Done t env) = length (e_chans env)
   \<and> t_done (fst (fst (Transaction_Done t env))) = t_done t @ [length (e_chans env)]
   \<and> e_s (snd (fst (Transaction_Done t env))) = e_s env
   \<and> e_r (snd (fst (Transaction_Done t env))) = e_r env
   \<and> e_chans (snd (fst (Transaction_Done t env))) = e_chans env @ [\<lparr>receivers = 0, delivered = []\<rparr>]
   \<and> e_chans (observerWaits (snd (Transaction_Done t env)) (snd (fst (Transaction_Done t env))))
       = e_chans env @ [\<lparr>receivers = 1, delivered = []\<rparr>]"
  by (simp add: Done_result observerWaits_def make_syncchan_def awaitValue_def)

text \<open>
  \<open>Done\<close> called after \<open>Commit\<close> or \<open>Rollback\<close> does what it always does: it appends
  a fresh channel to the observers and returns it. Registering sends nothing on that
  channel, and the channels that existed before are as the call left them.
\<close>

lemma Done_after_finish:
  "snd (lateDone (Transaction_Commit t ctx env)) = length (e_chans env)
   \<and> t_done (fst (fst (lateDone (Transaction_Commit t ctx env)))) = t_done t @ [length (e_chans env)]
   \<and> e_chans (observerWaits (snd (lateDone (Transaction_Commit t ctx env)))
        (snd (fst (lateDone (Transaction_Commit t ctx env)))))
     = e_chans (snd (fst (Transaction_Commit t ctx env))) @ [\<lparr>receivers = 1, delivered = []\<rparr>]
   \<and> snd (lateDone (Transaction_Rollback t ctx env)) = length (e_chans env)
   \<and> t_done (fst (fst (lateDone (Transaction_Rollback t ctx env)))) = t_done t @ [length (e_chans env)]
   \<and> e_chans (observerWaits (snd (lateDone (Transaction_Rollback t ctx env)))
        (snd (fst (lateDone (Transaction_Rollback t ctx env)))))
     = e_chans (snd (fst (Transaction_Rollback t ctx env))) @ [\<lparr>receivers = 1, delivered = []\<rparr>]"
proof -
  have lc: "length (e_chans (snd (fst (Transaction_Commit t ctx env)))) = length (e_chans env)"
    by (cases "ctx_tx ctx")
      (simp_all add: Commit_owner Commit_inherited Transaction_close_def fanout_length)
  have lr: "length (e_chans (snd (fst (Transaction_Rollback t ctx env)))) = length (e_chans env)"
    by (cases "ctx_tx ctx")
      (simp_all add: Rollback_owner Rollback_inherited Transaction_close_def fanout_length)
  have dc: "t_done (fst (fst (Transaction_Commit t ctx env))) = t_done t"
    by (cases "ctx_tx ctx") (simp_all add: Commit_owner Commit_inherited)
  have dr: "t_done (fst (fst (Transaction_Rollback t ctx env))) = t_done t"
    by (cases "ctx_tx ctx") (simp_all add: Rollback_owner Rollback_inherited)
  note c = Done_appends_fresh_channel [of "fst (fst (Transaction_Commit t ctx env))"
      "snd (fst (Transaction_Commit t ctx env))", folded lateDone_def]
  note r = Done_appends_fresh_channel [of "fst (fst (Transaction_Rollback t ctx env))"
      "snd (fst (Transaction_Rollback t ctx env))", folded lateDone_def]
  from c have c1: "snd (lateDone (Transaction_Commit t ctx env))
        = length (e_chans (snd (fst (Transaction_Commit t ctx env))))"
    and c2: "t_done (fst (fst (lateDone (Transaction_Commit t ctx env))))
        = t_done (fst (fst (Transaction_Commit t ctx env)))
            @ [length (e_chans (snd (fst (Transaction_Commit t ctx env))))]"
    and c3: "e_chans (observerWaits (snd (lateDone (Transaction_Commit t ctx env)))
          (snd (fst (lateDone (Transaction_Commit t ctx env)))))
        = e_chans (snd (fst (Transaction_Commit t ctx env))) @ [\<lparr>receivers = 1, delivered = []\<rparr>]"
    by blast+
  from r have r1: "snd (lateDone (Transaction_Rollback t ctx env))
        = length (e_chans (snd (fst (Transaction_Rollback t ctx env))))"
    and r2: "t_done (fst (fst (lateDone (Transaction_Rollback t ctx env))))
        = t_done (fst (fst (Transaction_Rollback t ctx env)))
            @ [length (e_chans (snd (fst (Transaction_Rollback t ctx env))))]"
    and r3: "e_chans (observerWaits (snd (lateDone (Transaction_Rollback t ctx env)))
          (snd (fst (lateDone (Transaction_Rollback t ctx env)))))
        = e_chans (snd (fst (Transaction_Rollback t ctx env))) @ [\<lparr>receivers = 1, delivered = []\<rparr>]"
    by blast+
  show ?thesis
    by (simp only: c2 c3 r2 r3) (simp add: c1 r1 lc lr dc dr)
qed

text \<open>
  Claim C7. The doc comment of \<open>Done\<close> promises a channel that blocks until the
  transaction is over and then returns nil or the error. Here the transaction is
  committed by its owner (the driver returns nil, the terminal result), an observer
  registers afterwards with \<open>Done\<close> and reads from the channel it is given: the channel
  is fresh, the terminal result has not been handed to the reader, and the reader is
  waiting although the transaction is over.
\<close>

theorem late_observer_still_waiting:
  "snd (Transaction_Commit exampleTransaction background exampleEnv) = None
   \<and> tx_ncalls (t_tx (fst afterCommit)) = 1
   \<and> snd lateObserver = 0
   \<and> e_chans (observerWaits (snd lateObserver) (snd (fst lateObserver)))
       = [\<lparr>receivers = 1, delivered = []\<rparr>]"
  by (simp add: lateObserver_def afterCommit_def Done_result observerWaits_def make_syncchan_def
      awaitValue_def Commit_owner background_def)
    (simp add: exampleTransaction_def newTransaction_def exampleTx_def exampleEnv_def
      Transaction_close_def)

end
